theory Spec2Isabelle
  imports Main "HOL-Library.Char_ord" "HOL-Library.List_Lexorder" "HOL-Library.Product_Lexorder"
begin

section \<open>Calendar dates\<close>

text \<open>
  Every \<^verbatim>\<open>Date\<close> of the program stands for a local calendar day: the runners build
  them as \<^verbatim>\<open>new Date(`${applied_on}T00:00:00`)\<close>, and the only Date with a time of day
  (the current time) is read through \<^verbatim>\<open>differenceInCalendarDays\<close> and
  \<^verbatim>\<open>formatISO\<close>, which drop the time of day, and through \<^verbatim>\<open>formatInTimeZone\<close>. A Date is therefore modelled as
  the number of local calendar days since 1970-01-01 (ECMAScript's
  \<^verbatim>\<open>Day(t)\<close>) in the zone of the process, an integer. Where the code prints a Date in
  another zone (part_000, through date-fns-tz), the time of day and the distance
  between the zones are explicit arguments.
  The calendar functions below are those of ECMAScript (ECMA-262, Date objects) and of
  the date-fns library that the program calls. They are not under src/.
\<close>

type_synonym date = int

text \<open>Modelled from the spec: the calendar behind \<^verbatim>\<open>Date\<close> and date-fns (not under
  src/), after ECMA-262: \<^verbatim>\<open>DaysInYear\<close> and \<^verbatim>\<open>DayFromYear\<close>.\<close>

definition DaysInYear :: "int \<Rightarrow> int" where
  "DaysInYear y =
     (if y mod 4 \<noteq> 0 then 365
      else if y mod 100 \<noteq> 0 then 366
      else if y mod 400 \<noteq> 0 then 365
      else 366)"

definition DayFromYear :: "int \<Rightarrow> int" where
  "DayFromYear y =
     365 * (y - 1970) + (y - 1969) div 4 - (y - 1901) div 100 + (y - 1601) div 400"

text \<open>Facts about \<^verbatim>\<open>DayFromYear\<close> that the search for the year of a day rests on.\<close>

lemma div_succ:
  fixes a k :: int
  assumes k: "0 < k"
  shows "(a + 1) div k = a div k + (if (a + 1) mod k = 0 then 1 else 0)"
proof -
  define q where "q = a div k"
  define r where "r = a mod k"
  have a: "a = k * q + r" and r0: "0 \<le> r" and rk: "r < k"
    using k by (simp_all add: q_def r_def)
  show ?thesis
  proof (cases "r + 1 = k")
    case True
    then have e: "a + 1 = k * (q + 1) + 0" using a by (simp add: algebra_simps)
    have "(a + 1) div k = q + 1" using int_div_pos_eq [OF e] k by simp
    moreover have "(a + 1) mod k = 0" using int_mod_pos_eq [OF e] k by simp
    ultimately show ?thesis by (simp add: q_def)
  next
    case False
    then have lt: "r + 1 < k" using rk by simp
    have e: "a + 1 = k * q + (r + 1)" using a by simp
    have "(a + 1) div k = q" using int_div_pos_eq [OF e] r0 lt by simp
    moreover have "(a + 1) mod k = r + 1" using int_mod_pos_eq [OF e] r0 lt by simp
    ultimately show ?thesis using r0 by (simp add: q_def)
  qed
qed

lemma mod_succ:
  fixes a k :: int
  assumes k: "0 < k"
  shows "(a + 1) mod k = (if a mod k + 1 = k then 0 else a mod k + 1)"
proof -
  define q where "q = a div k"
  define r where "r = a mod k"
  have a: "a = k * q + r" and r0: "0 \<le> r" and rk: "r < k"
    using k by (simp_all add: q_def r_def)
  show ?thesis
  proof (cases "r + 1 = k")
    case True
    then have e: "a + 1 = k * (q + 1) + 0" using a by (simp add: algebra_simps)
    have "(a + 1) mod k = 0" using int_mod_pos_eq [OF e] k by simp
    then show ?thesis using True by (simp add: r_def)
  next
    case False
    then have lt: "r + 1 < k" using rk by simp
    have e: "a + 1 = k * q + (r + 1)" using a by simp
    have "(a + 1) mod k = r + 1" using int_mod_pos_eq [OF e] r0 lt by simp
    then show ?thesis using False by (simp add: r_def)
  qed
qed

lemma DayFromYear_step: "DayFromYear (y + 1) = DayFromYear y + DaysInYear y"
proof -
  have shift: "(x - k * n) mod k = x mod k" for x k n :: int
    using mod_mult_self2 [of x k "- n"] by simp
  have m4: "(y - 1968) mod 4 = 0 \<longleftrightarrow> y mod 4 = 0"
    using shift [of y 4 492] by simp
  have m100: "(y - 1900) mod 100 = 0 \<longleftrightarrow> y mod 100 = 0"
    using shift [of y 100 19] by simp
  have m400: "(y - 1600) mod 400 = 0 \<longleftrightarrow> y mod 400 = 0"
    using shift [of y 400 4] by simp
  have i1: "y mod 100 = 0 \<Longrightarrow> y mod 4 = 0"
    using mod_mod_cancel [of 4 100 y] by simp
  have i2: "y mod 400 = 0 \<Longrightarrow> y mod 100 = 0"
    using mod_mod_cancel [of 100 400 y] by simp
  have d4: "(y - 1968) div 4 = (y - 1969) div 4 + (if y mod 4 = 0 then 1 else 0)"
    using div_succ [of 4 "y - 1969"] m4 by simp
  have d100: "(y - 1900) div 100 = (y - 1901) div 100 + (if y mod 100 = 0 then 1 else 0)"
    using div_succ [of 100 "y - 1901"] m100 by simp
  have d400: "(y - 1600) div 400 = (y - 1601) div 400 + (if y mod 400 = 0 then 1 else 0)"
    using div_succ [of 400 "y - 1601"] m400 by simp
  have e: "DayFromYear (y + 1) =
      365 * (y - 1969) + (y - 1968) div 4 - (y - 1900) div 100 + (y - 1600) div 400"
    by (simp add: DayFromYear_def)
  define a where "a = (y - 1969) div 4"
  define b where "b = (y - 1901) div 100"
  define c where "c = (y - 1601) div 400"
  have f: "DayFromYear y = 365 * (y - 1970) + a - b + c"
    by (simp add: DayFromYear_def a_def b_def c_def)
  show ?thesis
    unfolding e d4 d100 d400 f DaysInYear_def a_def [symmetric] b_def [symmetric]
      c_def [symmetric]
    using i1 i2 by (cases "y mod 4 = 0"; cases "y mod 100 = 0"; cases "y mod 400 = 0") simp_all
qed

lemma DaysInYear_bounds: "365 \<le> DaysInYear y \<and> DaysInYear y \<le> 366"
  by (simp add: DaysInYear_def)

lemma DayFromYear_less: "DayFromYear y < DayFromYear (y + 1)"
  using DayFromYear_step [of y] DaysInYear_bounds [of y] by simp

lemma DayFromYear_mono: "y \<le> y' \<Longrightarrow> DayFromYear y \<le> DayFromYear y'"
proof (induction y' rule: int_ge_induct)
  case base
  show ?case by simp
next
  case (step i)
  then show ?case using DayFromYear_less [of i] by simp
qed

text \<open>Modelled from the spec: ECMAScript \<^verbatim>\<open>YearFromTime\<close> (not under src/): the largest year that starts on or before the day,
  found by searching upwards from an estimate that is never too large.\<close>

function year_search :: "int \<Rightarrow> int \<Rightarrow> int" where
  "year_search y d = (if DayFromYear (y + 1) \<le> d then year_search (y + 1) d else y)"
  by pat_completeness auto
termination
proof (relation "measure (\<lambda>(y, d). nat (d - DayFromYear y))")
  show "wf (measure (\<lambda>(y, d). nat (d - DayFromYear y)))" by simp
next
  fix y d :: int
  assume "DayFromYear (y + 1) \<le> d"
  then show "((y + 1, d), (y, d)) \<in> measure (\<lambda>(y, d). nat (d - DayFromYear y))"
    using DayFromYear_less [of y] by simp
qed

declare year_search.simps [simp del]

definition year_estimate :: "int \<Rightarrow> int" where
  "year_estimate d = 1970 + (if 0 \<le> d then d div 366 else d div 365)"

definition YearFromDay :: "date \<Rightarrow> int" where
  "YearFromDay d = year_search (year_estimate d) d"

text \<open>Modelled from the spec: ECMAScript \<^verbatim>\<open>InLeapYear\<close>, \<^verbatim>\<open>MonthFromTime\<close> (months 0 to 11),
  \<^verbatim>\<open>DateFromTime\<close> and \<^verbatim>\<open>MakeDay\<close>; \<open>month_start\<close> is the day within the year on
  which a month begins.\<close>

definition InLeapYear :: "int \<Rightarrow> int" where
  "InLeapYear y = DaysInYear y - 365"

definition month_start :: "int \<Rightarrow> int \<Rightarrow> int" where
  "month_start y m =
     (if m \<le> 0 then 0
      else if m = 1 then 31
      else InLeapYear y +
        (if m = 2 then 59 else if m = 3 then 90 else if m = 4 then 120
         else if m = 5 then 151 else if m = 6 then 181 else if m = 7 then 212
         else if m = 8 then 243 else if m = 9 then 273 else if m = 10 then 304
         else if m = 11 then 334 else 365))"

definition DaysInMonth :: "int \<Rightarrow> int \<Rightarrow> int" where
  "DaysInMonth y m = month_start y (m + 1) - month_start y m"

definition getFullYear :: "date \<Rightarrow> int" where
  "getFullYear d = YearFromDay d"

definition DayWithinYear :: "date \<Rightarrow> int" where
  "DayWithinYear d = d - DayFromYear (YearFromDay d)"

definition getMonth :: "date \<Rightarrow> int" where
  "getMonth d =
     (let y = YearFromDay d; n = DayWithinYear d in
      if n < month_start y 1 then 0 else if n < month_start y 2 then 1
      else if n < month_start y 3 then 2 else if n < month_start y 4 then 3
      else if n < month_start y 5 then 4 else if n < month_start y 6 then 5
      else if n < month_start y 7 then 6 else if n < month_start y 8 then 7
      else if n < month_start y 9 then 8 else if n < month_start y 10 then 9
      else if n < month_start y 11 then 10 else 11)"

definition getDate :: "date \<Rightarrow> int" where
  "getDate d = DayWithinYear d - month_start (YearFromDay d) (getMonth d) + 1"

definition MakeDay :: "int \<Rightarrow> int \<Rightarrow> int \<Rightarrow> date" where
  "MakeDay year month dt =
     (let ym = year + month div 12; mn = month mod 12
      in DayFromYear ym + month_start ym mn + dt - 1)"

text \<open>Modelled from the spec: \<^verbatim>\<open>Date.prototype.getDay\<close> (ECMAScript's WeekDay, not
  under src/): 0 = Sunday, ..., 6 = Saturday; 1970-01-01 was a Thursday.\<close>

definition getDay :: "date \<Rightarrow> int" where
  "getDay d = (d + 4) mod 7"

text \<open>Modelled from the spec: date-fns \<^verbatim>\<open>addDays\<close> (not under src/) advances a date
  by a number of calendar days.\<close>

definition addDays :: "date \<Rightarrow> int \<Rightarrow> date" where
  "addDays d amount = d + amount"

text \<open>Modelled from the spec: date-fns \<^verbatim>\<open>differenceInCalendarDays\<close> (not under src/) is
  the signed number of calendar days from the second date to the first.\<close>

definition differenceInCalendarDays :: "date \<Rightarrow> date \<Rightarrow> int" where
  "differenceInCalendarDays later earlier = later - earlier"

text \<open>Modelled from the spec: date-fns \<^verbatim>\<open>addMonths\<close> (not under src/) advances a date by
  calendar months with month-end clamping. The definition follows the library's steps:
  the last day of the desired month is day 0 of the month after it; when the day of the
  month does not fit, that last day is the result.\<close>

definition addMonths :: "date \<Rightarrow> int \<Rightarrow> date" where
  "addMonths d amount =
     (if amount = 0 then d
      else
        let dayOfMonth = getDate d;
            endOfDesiredMonth = MakeDay (getFullYear d) (getMonth d + amount + 1) 0;
            daysInMonth = getDate endOfDesiredMonth
        in if dayOfMonth \<ge> daysInMonth then endOfDesiredMonth
           else MakeDay (getFullYear endOfDesiredMonth) (getMonth endOfDesiredMonth) dayOfMonth)"

section \<open>Schedule Calculator (lib/schedule, part_001)\<close>

text \<open>The two runners hold textual copies of \<^verbatim>\<open>addInterval\<close>, \<^verbatim>\<open>adjustWeekend\<close> and
  \<^verbatim>\<open>calcNextDate\<close>; the interval unit is the string stored in the treatment row.\<close>

datatype Status = Overdue | Upcoming | Later

definition addInterval :: "date \<Rightarrow> int \<Rightarrow> string \<Rightarrow> date" where
  "addInterval d v unit = (if unit = ''months'' then addMonths d v else addDays d v)"

definition adjustWeekend :: "date \<Rightarrow> date" where
  "adjustWeekend d =
     (let dow = getDay d in
      if dow = 6 then addDays d 2
      else if dow = 0 then addDays d 1
      else d)"

definition calcNextDate :: "date \<Rightarrow> int \<Rightarrow> string \<Rightarrow> date" where
  "calcNextDate lastApplied v unit = adjustWeekend (addInterval lastApplied v unit)"

definition daysToNext :: "date \<Rightarrow> date \<Rightarrow> int" where
  "daysToNext nextDate today = differenceInCalendarDays nextDate today"

definition statusFromDays :: "int \<Rightarrow> Status" where
  "statusFromDays days =
     (if days < 0 then Overdue
      else if days \<le> 60 then Upcoming
      else Later)"

section \<open>Text formatting\<close>

text \<open>Decimal rendering of a JavaScript integer (template literals), and, modelled after
  their documented output, the date formats of date-fns (not under src/):
  \<^verbatim>\<open>addLeadingZeros\<close>, \<^verbatim>\<open>formatISO(d, {representation: "date"})\<close>, which prints the
  local calendar day, and the year token \<^verbatim>\<open>yyyy\<close> of format patterns.\<close>

definition digit_char :: "nat \<Rightarrow> char" where
  "digit_char n = ''0123456789'' ! n"

text \<open>The decimal digits of a natural number, least significant digit first into an
  accumulator.\<close>

fun decimal :: "nat \<Rightarrow> string \<Rightarrow> string" where
  "decimal n acc =
     (if n < 10 then digit_char n # acc else decimal (n div 10) (digit_char (n mod 10) # acc))"

declare decimal.simps [simp del]

definition show_nat :: "nat \<Rightarrow> string" where
  "show_nat n = decimal n []"

definition show_int :: "int \<Rightarrow> string" where
  "show_int i = (if i < 0 then CHR ''-'' # show_nat (nat (- i)) else show_nat (nat i))"

definition addLeadingZeros :: "int \<Rightarrow> nat \<Rightarrow> string" where
  "addLeadingZeros number targetLength =
     (let output = show_nat (nat \<bar>number\<bar>)
      in (if number < 0 then ''-'' else []) @
         replicate (targetLength - length output) (CHR ''0'') @ output)"

definition toISODate :: "date \<Rightarrow> string" where
  "toISODate d =
     addLeadingZeros (getFullYear d) 4 @ ''-'' @ addLeadingZeros (getMonth d + 1) 2 @ ''-'' @
     addLeadingZeros (getDate d) 2"

definition token_yyyy :: "date \<Rightarrow> string" where
  "token_yyyy d =
     (let signedYear = getFullYear d
      in addLeadingZeros (if signedYear > 0 then signedYear else 1 - signedYear) 4)"

text \<open>The glyphs of the message templates that are not ASCII, as their UTF-8 bytes.\<close>

definition nl :: string where "nl = [CHR 0x0A]"
definition glyph_warning :: string where
  "glyph_warning = [CHR 0xE2, CHR 0x9A, CHR 0xA0, CHR 0xEF, CHR 0xB8, CHR 0x8F]"
definition glyph_dash :: string where "glyph_dash = [CHR 0xE2, CHR 0x80, CHR 0x94]"
definition glyph_clock :: string where "glyph_clock = [CHR 0xE2, CHR 0x8F, CHR 0xB0]"
definition glyph_dog :: string where "glyph_dog = [CHR 0xF0, CHR 0x9F, CHR 0x90, CHR 0xB6]"
definition glyph_hourglass :: string where "glyph_hourglass = [CHR 0xE2, CHR 0x8F, CHR 0xB3]"
definition glyph_pin :: string where "glyph_pin = [CHR 0xF0, CHR 0x9F, CHR 0x93, CHR 0x8C]"
definition glyph_calendar :: string where
  "glyph_calendar = [CHR 0xF0, CHR 0x9F, CHR 0x97, CHR 0x93, CHR 0xEF, CHR 0xB8, CHR 0x8F]"
definition glyph_stopwatch :: string where
  "glyph_stopwatch = [CHR 0xE2, CHR 0x8F, CHR 0xB1, CHR 0xEF, CHR 0xB8, CHR 0x8F]"
definition glyph_siren :: string where "glyph_siren = [CHR 0xF0, CHR 0x9F, CHR 0x9A, CHR 0xA8]"
definition glyph_check :: string where "glyph_check = [CHR 0xE2, CHR 0x9C, CHR 0x85]"
definition a_acute :: string where "a_acute = [CHR 0xC3, CHR 0xA1]"
definition o_acute :: string where "o_acute = [CHR 0xC3, CHR 0xB3]"
definition U_acute :: string where "U_acute = [CHR 0xC3, CHR 0x9A]"
definition c_cedilla :: string where "c_cedilla = [CHR 0xC3, CHR 0xA7]"
definition a_tilde :: string where "a_tilde = [CHR 0xC3, CHR 0xA3]"

section \<open>The data store and the messaging channel\<close>

text \<open>The rows the runners read and write (the table comment of part_000).
  \<open>t_alerts_days\<close> is \<open>None\<close> when the column holds no array.\<close>

type_synonym uuid = string

record pet =
  p_id :: uuid
  p_name :: string

record pet_member =
  pm_pet_id :: uuid
  pm_user_id :: uuid
  pm_role :: string

record treatment =
  t_id :: uuid
  t_pet_id :: uuid
  t_category :: string
  t_name :: string
  t_interval_value :: int
  t_interval_unit :: string
  t_alerts_days :: "int list option"

record application =
  ap_treatment_id :: uuid
  ap_applied_on :: date

record alert_log_entry =
  al_treatment_id :: uuid
  al_alert_type :: string
  al_alert_date :: string

record database =
  pets :: "pet list"
  pet_members :: "pet_member list"
  treatments :: "treatment list"
  applications :: "application list"
  alert_log :: "alert_log_entry list"

text \<open>A failure reported by the store carries the store's error code; \<open>23505\<close> is
  the code of a uniqueness violation.\<close>

datatype store_error = StoreError (err_code: string)

datatype query =
    SelectPetsByName string
  | SelectOwnerMembers
  | SelectPetsIn "uuid list"
  | SelectTreatments uuid
  | SelectApplications uuid
  | SelectAlertLog uuid string string
  | InsertAlertLog uuid string string

record response =
  ok :: bool
  status :: nat
  body :: string

text \<open>What a run cannot control: which store requests fail for a reason of the store's
  own (connectivity, schema), what the messaging channel answers to a text, and the time
  zone of the process. \<open>sp_shift env d ms\<close> is the number of milliseconds by which
  the wall clock of America/Sao_Paulo is ahead of the wall clock of the process zone at
  the Date whose local fields are day \<open>d\<close> and \<open>ms\<close> milliseconds after midnight: 0 when
  the process runs in America/Sao_Paulo, -10800000 (three hours behind) when it runs in
  UTC.\<close>

record env =
  store_fault :: "query \<Rightarrow> store_error option"
  telegram :: "string \<Rightarrow> response"
  sp_shift :: "date \<Rightarrow> int \<Rightarrow> int"

text \<open>Modelled from the spec: date-fns-tz \<^verbatim>\<open>formatInTimeZone(date, "America/Sao_Paulo", ...)\<close>
  (not under src/) prints the wall clock of the zone at the instant of the Date, whatever
  the zone of the process. \<open>sp_day\<close> is the calendar day it prints for the Date whose
  local fields are day \<open>d\<close> and \<open>ms\<close> milliseconds after midnight.\<close>

definition ms_per_day :: int where
  "ms_per_day = 86400000"

definition sp_day :: "env \<Rightarrow> date \<Rightarrow> int \<Rightarrow> date" where
  "sp_day env d ms = d + (ms + sp_shift env d ms) div ms_per_day"

text \<open>What a run changes: the store, and the messages the channel has delivered.\<close>

record world =
  db :: database
  outbox :: "string list"

datatype error =
    StoreFailure store_error
  | TelegramFailure nat string
  | PetNotFound

text \<open>Modelled from the spec: the persistence collaborator (a hosted relational store,
  not under src/) with the tables of the spec's section 6. A request fails with the
  environment's fault when there is one; otherwise a select answers the matching rows
  and an insert into \<open>alert_log\<close> obeys
  \<^verbatim>\<open>UNIQUE(treatment_id, alert_type, alert_date)\<close>: it is refused with code 23505 when
  the triple is already there, and appends the row otherwise.\<close>

definition select_pets_by_name :: "env \<Rightarrow> database \<Rightarrow> string \<Rightarrow> store_error + pet list" where
  "select_pets_by_name env d n =
     (case store_fault env (SelectPetsByName n) of
        Some e \<Rightarrow> Inl e
      | None \<Rightarrow> Inr (take 1 (filter (\<lambda>p. p_name p = n) (pets d))))"

definition select_owner_members :: "env \<Rightarrow> database \<Rightarrow> store_error + pet_member list" where
  "select_owner_members env d =
     (case store_fault env SelectOwnerMembers of
        Some e \<Rightarrow> Inl e
      | None \<Rightarrow> Inr (filter (\<lambda>m. pm_role m = ''owner'') (pet_members d)))"

definition select_pets_in :: "env \<Rightarrow> database \<Rightarrow> uuid list \<Rightarrow> store_error + pet list" where
  "select_pets_in env d ids =
     (case store_fault env (SelectPetsIn ids) of
        Some e \<Rightarrow> Inl e
      | None \<Rightarrow> Inr (filter (\<lambda>p. p_id p \<in> set ids) (pets d)))"

definition select_treatments :: "env \<Rightarrow> database \<Rightarrow> uuid \<Rightarrow> store_error + treatment list" where
  "select_treatments env d petId =
     (case store_fault env (SelectTreatments petId) of
        Some e \<Rightarrow> Inl e
      | None \<Rightarrow> Inr (filter (\<lambda>t. t_pet_id t = petId) (treatments d)))"

definition select_treatments_ordered ::
    "env \<Rightarrow> database \<Rightarrow> uuid \<Rightarrow> store_error + treatment list" where
  "select_treatments_ordered env d petId =
     (case select_treatments env d petId of
        Inl e \<Rightarrow> Inl e
      | Inr ts \<Rightarrow> Inr (sort_key (\<lambda>t. (t_category t, t_name t)) ts))"

fun latest :: "date list \<Rightarrow> date list" where
  "latest [] = []"
| "latest (x # xs) = (case latest xs of [] \<Rightarrow> [x] | m # _ \<Rightarrow> [max x m])"

text \<open>\<^verbatim>\<open>applications ... order("applied_on", {ascending: false}).limit(1)\<close>: at most one
  row, the latest date.\<close>

definition select_last_application :: "env \<Rightarrow> database \<Rightarrow> uuid \<Rightarrow> store_error + date list" where
  "select_last_application env d treatmentId =
     (case store_fault env (SelectApplications treatmentId) of
        Some e \<Rightarrow> Inl e
      | None \<Rightarrow>
          Inr (latest (map ap_applied_on
                 (filter (\<lambda>a. ap_treatment_id a = treatmentId) (applications d)))))"

definition select_alert_log ::
    "env \<Rightarrow> database \<Rightarrow> uuid \<Rightarrow> string \<Rightarrow> string \<Rightarrow> store_error + alert_log_entry list" where
  "select_alert_log env d treatmentId alertType alertDate =
     (case store_fault env (SelectAlertLog treatmentId alertType alertDate) of
        Some e \<Rightarrow> Inl e
      | None \<Rightarrow>
          Inr (take 1 (filter (\<lambda>r. al_treatment_id r = treatmentId \<and> al_alert_type r = alertType
                                  \<and> al_alert_date r = alertDate) (alert_log d))))"

definition insert_alert_log ::
    "env \<Rightarrow> database \<Rightarrow> alert_log_entry \<Rightarrow> store_error option \<times> database" where
  "insert_alert_log env d r =
     (case store_fault env (InsertAlertLog (al_treatment_id r) (al_alert_type r) (al_alert_date r)) of
        Some e \<Rightarrow> (Some e, d)
      | None \<Rightarrow>
          if r \<in> set (alert_log d) then (Some (StoreError ''23505''), d)
          else (None, d\<lparr>alert_log := alert_log d @ [r]\<rparr>))"

text \<open>\<^verbatim>\<open>telegramSend\<close> (the same in both runners but for the wording of the error): a
  response that is not ok raises; a delivered text is appended to the outbox.\<close>

definition telegramSend :: "env \<Rightarrow> string \<Rightarrow> world \<Rightarrow> (error + unit) \<times> world" where
  "telegramSend env msg w =
     (let res = telegram env msg
      in if \<not> ok res then (Inl (TelegramFailure (status res) (body res)), w)
         else (Inr (), w\<lparr>outbox := outbox w @ [msg]\<rparr>))"

section \<open>The alert runner of scripts/send-alerts.js\<close>

text \<open>\<^verbatim>\<open>alreadyLogged\<close> here is the insert itself: no error means the row was not there
  and is now; code 23505 means it was there; any other error is raised.\<close>

definition sa_alreadyLogged ::
    "env \<Rightarrow> uuid \<Rightarrow> string \<Rightarrow> string \<Rightarrow> world \<Rightarrow> (error + bool) \<times> world" where
  "sa_alreadyLogged env treatmentId alertType alertDate w =
     (case insert_alert_log env (db w)
             \<lparr>al_treatment_id = treatmentId, al_alert_type = alertType, al_alert_date = alertDate\<rparr> of
        (None, d) \<Rightarrow> (Inr False, w\<lparr>db := d\<rparr>)
      | (Some e, d) \<Rightarrow>
          if err_code e = ''23505'' then (Inr True, w\<lparr>db := d\<rparr>)
          else (Inl (StoreFailure e), w\<lparr>db := d\<rparr>))"

text \<open>\<^verbatim>\<open>const alerts = Array.isArray(t.alerts_days) ? t.alerts_days : [30, 15, 5]\<close>.\<close>

definition sa_alerts :: "treatment \<Rightarrow> int list" where
  "sa_alerts t = (case t_alerts_days t of Some xs \<Rightarrow> xs | None \<Rightarrow> [30, 15, 5])"

definition sa_overdue_text :: "pet \<Rightarrow> treatment \<Rightarrow> int \<Rightarrow> date \<Rightarrow> date \<Rightarrow> string" where
  "sa_overdue_text zeus t days lastAppliedOn next =
     glyph_warning @ '' '' @ p_name zeus @ '' '' @ glyph_dash @ '' '' @ t_name t @ '' est'' @
     a_acute @ '' ATRASADO h'' @ a_acute @ '' '' @ show_int \<bar>days\<bar> @ '' dia(s).'' @ nl @
     U_acute @ ''ltima: '' @ toISODate lastAppliedOn @ nl @
     ''Pr'' @ o_acute @ ''xima prevista: '' @ toISODate next"

definition sa_due_text :: "pet \<Rightarrow> treatment \<Rightarrow> int \<Rightarrow> date \<Rightarrow> date \<Rightarrow> string" where
  "sa_due_text zeus t days lastAppliedOn next =
     glyph_clock @ '' '' @ p_name zeus @ '' '' @ glyph_dash @ '' '' @ t_name t @ nl @
     ''Faltam '' @ show_int days @ '' dia(s).'' @ nl @
     U_acute @ ''ltima: '' @ toISODate lastAppliedOn @ nl @
     ''Pr'' @ o_acute @ ''xima: '' @ toISODate next"

text \<open>The body shared by the two alert branches of the loop:
  \<^verbatim>\<open>const already = await alreadyLogged(...); if (!already) { await telegramSend(...) }\<close>.\<close>

definition sa_notify ::
    "env \<Rightarrow> uuid \<Rightarrow> string \<Rightarrow> string \<Rightarrow> string \<Rightarrow> world \<Rightarrow> (error + unit) \<times> world" where
  "sa_notify env treatmentId alertType todayISO msg w =
     (case sa_alreadyLogged env treatmentId alertType todayISO w of
        (Inl e, w1) \<Rightarrow> (Inl e, w1)
      | (Inr already, w1) \<Rightarrow> if \<not> already then telegramSend env msg w1 else (Inr (), w1))"

text \<open>One iteration of \<^verbatim>\<open>for (const t of treatments)\<close>.\<close>

definition sa_treatment ::
    "env \<Rightarrow> pet \<Rightarrow> date \<Rightarrow> string \<Rightarrow> treatment \<Rightarrow> world \<Rightarrow> (error + unit) \<times> world" where
  "sa_treatment env zeus nowSP todayISO t w =
     (case select_last_application env (db w) (t_id t) of
        Inl e \<Rightarrow> (Inl (StoreFailure e), w)
      | Inr [] \<Rightarrow> (Inr (), w)
      | Inr (lastAppliedOn # _) \<Rightarrow>
          let next = calcNextDate lastAppliedOn (t_interval_value t) (t_interval_unit t);
              days = differenceInCalendarDays next nowSP;
              alerts = sa_alerts t
          in if days < 0 then
               sa_notify env (t_id t) ''overdue_daily'' todayISO
                 (sa_overdue_text zeus t days lastAppliedOn next) w
             else if days \<in> set alerts then
               sa_notify env (t_id t) (''due_in_'' @ show_int days) todayISO
                 (sa_due_text zeus t days lastAppliedOn next) w
             else (Inr (), w))"

fun sa_loop ::
    "env \<Rightarrow> pet \<Rightarrow> date \<Rightarrow> string \<Rightarrow> treatment list \<Rightarrow> world \<Rightarrow> (error + unit) \<times> world" where
  "sa_loop env zeus nowSP todayISO [] w = (Inr (), w)"
| "sa_loop env zeus nowSP todayISO (t # ts) w =
     (case sa_treatment env zeus nowSP todayISO t w of
        (Inl e, w1) \<Rightarrow> (Inl e, w1)
      | (Inr _, w1) \<Rightarrow> sa_loop env zeus nowSP todayISO ts w1)"

text \<open>\<^verbatim>\<open>main\<close>; \<open>nowSP\<close> is the local day of \<^verbatim>\<open>utcToZonedTime(nowUtc, TZ)\<close>, the
  current day in America/Sao_Paulo.\<close>

definition sa_main :: "env \<Rightarrow> date \<Rightarrow> world \<Rightarrow> (error + unit) \<times> world" where
  "sa_main env nowSP w =
     (let todayISO = toISODate nowSP
      in case select_pets_by_name env (db w) ''Zeus'' of
           Inl e \<Rightarrow> (Inl (StoreFailure e), w)
         | Inr [] \<Rightarrow> (Inl PetNotFound, w)
         | Inr (zeus # _) \<Rightarrow>
             (case select_treatments env (db w) (p_id zeus) of
                Inl e \<Rightarrow> (Inl (StoreFailure e), w)
              | Inr ts \<Rightarrow> sa_loop env zeus nowSP todayISO ts w))"

section \<open>The alert runner of part_000 (Zeus Alerts)\<close>

text \<open>\<^verbatim>\<open>adjustIfWeekend\<close> and \<^verbatim>\<open>calcNextDate\<close> of this file; its \<^verbatim>\<open>addInterval\<close> and
  \<^verbatim>\<open>daysToNext\<close> are those of the Schedule Calculator.\<close>

text \<open>\<^verbatim>\<open>isoDateSP\<close> and \<^verbatim>\<open>formatBR\<close> print a Date in America/Sao_Paulo with
  \<^verbatim>\<open>formatInTimeZone\<close>. \<open>isoDateSP\<close> is applied to the current time, a Date with a
  time of day; \<open>formatBR\<close> is applied to the last application and to the next due
  date, which are local midnights.\<close>

definition isoDateSP :: "env \<Rightarrow> date \<Rightarrow> int \<Rightarrow> string" where
  "isoDateSP env d ms =
     (let z = sp_day env d ms
      in token_yyyy z @ ''-'' @ addLeadingZeros (getMonth z + 1) 2 @ ''-'' @
         addLeadingZeros (getDate z) 2)"

definition formatBR :: "env \<Rightarrow> date \<Rightarrow> string" where
  "formatBR env d =
     (let z = sp_day env d 0
      in addLeadingZeros (getDate z) 2 @ ''/'' @ addLeadingZeros (getMonth z + 1) 2 @ ''/'' @
         token_yyyy z)"

definition adjustIfWeekend :: "date \<Rightarrow> date" where
  "adjustIfWeekend d =
     (let dow = getDay d in
      if dow = 6 then addDays d 2
      else if dow = 0 then addDays d 1
      else d)"

definition za_calcNextDate :: "date \<Rightarrow> int \<Rightarrow> string \<Rightarrow> date" where
  "za_calcNextDate lastApplied intervalValue intervalUnit =
     (let base = addInterval lastApplied intervalValue intervalUnit in adjustIfWeekend base)"

text \<open>\<^verbatim>\<open>[...new Set(xs)]\<close>: the distinct elements, each at its first occurrence.\<close>

definition set_spread :: "'a list \<Rightarrow> 'a list" where
  "set_spread xs = fold (\<lambda>x acc. if x \<in> set acc then acc else acc @ [x]) xs []"

definition getOwnerPets :: "env \<Rightarrow> world \<Rightarrow> error + pet list" where
  "getOwnerPets env w =
     (case select_owner_members env (db w) of
        Inl e \<Rightarrow> Inl (StoreFailure e)
      | Inr members \<Rightarrow>
          let petIds = set_spread (map pm_pet_id members)
          in if length petIds = 0 then Inr []
             else (case select_pets_in env (db w) petIds of
                     Inl e \<Rightarrow> Inl (StoreFailure e)
                   | Inr ps \<Rightarrow> Inr ps))"

definition getTreatmentsByPet :: "env \<Rightarrow> uuid \<Rightarrow> world \<Rightarrow> error + treatment list" where
  "getTreatmentsByPet env petId w =
     (case select_treatments_ordered env (db w) petId of
        Inl e \<Rightarrow> Inl (StoreFailure e)
      | Inr ts \<Rightarrow> Inr ts)"

definition getLastApplicationDate :: "env \<Rightarrow> uuid \<Rightarrow> world \<Rightarrow> error + date option" where
  "getLastApplicationDate env treatmentId w =
     (case select_last_application env (db w) treatmentId of
        Inl e \<Rightarrow> Inl (StoreFailure e)
      | Inr [] \<Rightarrow> Inr None
      | Inr (applied_on # _) \<Rightarrow> Inr (Some applied_on))"

text \<open>\<^verbatim>\<open>alreadyLogged\<close> here is a lookup that changes nothing, and \<^verbatim>\<open>insertLog\<close> raises
  every error of the insert.\<close>

definition za_alreadyLogged :: "env \<Rightarrow> uuid \<Rightarrow> string \<Rightarrow> string \<Rightarrow> world \<Rightarrow> error + bool" where
  "za_alreadyLogged env treatmentId alertType alertDateYYYYMMDD w =
     (case select_alert_log env (db w) treatmentId alertType alertDateYYYYMMDD of
        Inl e \<Rightarrow> Inl (StoreFailure e)
      | Inr rows \<Rightarrow> Inr (length rows > 0))"

definition insertLog ::
    "env \<Rightarrow> uuid \<Rightarrow> string \<Rightarrow> string \<Rightarrow> world \<Rightarrow> (error + unit) \<times> world" where
  "insertLog env treatmentId alertType alertDateYYYYMMDD w =
     (case insert_alert_log env (db w)
             \<lparr>al_treatment_id = treatmentId, al_alert_type = alertType,
              al_alert_date = alertDateYYYYMMDD\<rparr> of
        (None, d) \<Rightarrow> (Inr (), w\<lparr>db := d\<rparr>)
      | (Some e, d) \<Rightarrow> (Inl (StoreFailure e), w\<lparr>db := d\<rparr>))"

text \<open>\<^verbatim>\<open>Array.isArray(t.alerts_days) && t.alerts_days.length > 0 ? t.alerts_days : [30, 15, 5]\<close>.\<close>

definition za_alertsDays :: "treatment \<Rightarrow> int list" where
  "za_alertsDays t =
     (case t_alerts_days t of
        Some xs \<Rightarrow> if length xs > 0 then xs else [30, 15, 5]
      | None \<Rightarrow> [30, 15, 5])"

definition za_upcoming_text :: "env \<Rightarrow> pet \<Rightarrow> treatment \<Rightarrow> int \<Rightarrow> date \<Rightarrow> date \<Rightarrow> string" where
  "za_upcoming_text env pet t days lastApplied nextDate =
     glyph_dog @ '' <b>'' @ p_name pet @ ''</b>'' @ nl @
     glyph_hourglass @ '' <b>Pr'' @ o_acute @ ''ximo</b>: '' @ t_name t @ '' ('' @
       t_category t @ '')'' @ nl @
     glyph_pin @ '' Pr'' @ o_acute @ ''xima data: <b>'' @ formatBR env nextDate @ ''</b>'' @ nl @
     glyph_calendar @ '' '' @ U_acute @ ''ltima aplica'' @ c_cedilla @ a_tilde @ ''o: '' @
       formatBR env lastApplied @ nl @
     glyph_stopwatch @ '' Faltam <b>'' @ show_int days @ ''</b> dia(s).''"

definition za_overdue_text :: "env \<Rightarrow> pet \<Rightarrow> treatment \<Rightarrow> int \<Rightarrow> date \<Rightarrow> date \<Rightarrow> string" where
  "za_overdue_text env pet t days lastApplied nextDate =
     glyph_dog @ '' <b>'' @ p_name pet @ ''</b>'' @ nl @
     glyph_siren @ '' <b>ATRASADO</b>: '' @ t_name t @ '' ('' @ t_category t @ '')'' @ nl @
     glyph_pin @ '' Era para: <b>'' @ formatBR env nextDate @ ''</b>'' @ nl @
     glyph_calendar @ '' '' @ U_acute @ ''ltima aplica'' @ c_cedilla @ a_tilde @ ''o: '' @
       formatBR env lastApplied @ nl @
     glyph_stopwatch @ '' Atraso de <b>'' @ show_int \<bar>days\<bar> @ ''</b> dia(s).'' @ nl @ nl @
     glyph_check @ '' Marque no app assim que aplicar.''"

text \<open>The body shared by the two alert blocks of the loop: look the triple up; when it
  is not logged, send, then insert the log row, then count one sent alert.\<close>

definition za_notify ::
    "env \<Rightarrow> uuid \<Rightarrow> string \<Rightarrow> string \<Rightarrow> string \<Rightarrow> world \<Rightarrow> (error + nat) \<times> world" where
  "za_notify env treatmentId alertType todayKey msg w =
     (case za_alreadyLogged env treatmentId alertType todayKey w of
        Inl e \<Rightarrow> (Inl e, w)
      | Inr already \<Rightarrow>
          if \<not> already then
            (case telegramSend env msg w of
               (Inl e, w1) \<Rightarrow> (Inl e, w1)
             | (Inr _, w1) \<Rightarrow>
                 (case insertLog env treatmentId alertType todayKey w1 of
                    (Inl e, w2) \<Rightarrow> (Inl e, w2)
                  | (Inr _, w2) \<Rightarrow> (Inr 1, w2)))
          else (Inr 0, w))"

text \<open>One iteration of \<^verbatim>\<open>for (const t of treatments)\<close>; the value is the number of
  alerts the iteration adds to \<^verbatim>\<open>sentCount\<close>.\<close>

definition za_treatment ::
    "env \<Rightarrow> pet \<Rightarrow> date \<Rightarrow> string \<Rightarrow> treatment \<Rightarrow> world \<Rightarrow> (error + nat) \<times> world" where
  "za_treatment env pet nowSP todayKey t w =
     (case getLastApplicationDate env (t_id t) w of
        Inl e \<Rightarrow> (Inl e, w)
      | Inr None \<Rightarrow> (Inr 0, w)
      | Inr (Some lastApplied) \<Rightarrow>
          let nextDate = za_calcNextDate lastApplied (t_interval_value t) (t_interval_unit t);
              days = daysToNext nextDate nowSP;
              alertsDays = za_alertsDays t
          in case (if days \<in> set alertsDays then
                     za_notify env (t_id t) (''upcoming_'' @ show_int days) todayKey
                       (za_upcoming_text env pet t days lastApplied nextDate) w
                   else (Inr 0, w)) of
               (Inl e, w1) \<Rightarrow> (Inl e, w1)
             | (Inr n1, w1) \<Rightarrow>
                 (case (if days < 0 then
                          za_notify env (t_id t) ''overdue_daily'' todayKey
                            (za_overdue_text env pet t days lastApplied nextDate) w1
                        else (Inr 0, w1)) of
                    (Inl e, w2) \<Rightarrow> (Inl e, w2)
                  | (Inr n2, w2) \<Rightarrow> (Inr (n1 + n2), w2)))"

fun za_treatments_loop ::
    "env \<Rightarrow> pet \<Rightarrow> date \<Rightarrow> string \<Rightarrow> treatment list \<Rightarrow> world \<Rightarrow> (error + nat) \<times> world" where
  "za_treatments_loop env pet nowSP todayKey [] w = (Inr 0, w)"
| "za_treatments_loop env pet nowSP todayKey (t # ts) w =
     (case za_treatment env pet nowSP todayKey t w of
        (Inl e, w1) \<Rightarrow> (Inl e, w1)
      | (Inr n, w1) \<Rightarrow>
          (case za_treatments_loop env pet nowSP todayKey ts w1 of
             (Inl e, w2) \<Rightarrow> (Inl e, w2)
           | (Inr m, w2) \<Rightarrow> (Inr (n + m), w2)))"

fun za_pets_loop :: "env \<Rightarrow> date \<Rightarrow> string \<Rightarrow> pet list \<Rightarrow> world \<Rightarrow> (error + nat) \<times> world" where
  "za_pets_loop env nowSP todayKey [] w = (Inr 0, w)"
| "za_pets_loop env nowSP todayKey (pet # ps) w =
     (case getTreatmentsByPet env (p_id pet) w of
        Inl e \<Rightarrow> (Inl e, w)
      | Inr ts \<Rightarrow>
          (case za_treatments_loop env pet nowSP todayKey ts w of
             (Inl e, w1) \<Rightarrow> (Inl e, w1)
           | (Inr n, w1) \<Rightarrow>
               (case za_pets_loop env nowSP todayKey ps w1 of
                  (Inl e, w2) \<Rightarrow> (Inl e, w2)
                | (Inr m, w2) \<Rightarrow> (Inr (n + m), w2))))"

text \<open>\<^verbatim>\<open>main\<close>; the value is the final \<^verbatim>\<open>sentCount\<close>. \<open>nowSP\<close> and \<open>nowMs\<close> are
  the local fields of \<^verbatim>\<open>toZonedTime(now, TZ)\<close>: the current day in America/Sao_Paulo
  and the milliseconds since its midnight. The day offsets are taken from these local
  fields, while \<^verbatim>\<open>todayKey\<close> is \<^verbatim>\<open>isoDateSP(nowSP)\<close>, which converts the zoned Date to
  America/Sao_Paulo once more.\<close>

definition za_main :: "env \<Rightarrow> date \<Rightarrow> int \<Rightarrow> world \<Rightarrow> (error + nat) \<times> world" where
  "za_main env nowSP nowMs w =
     (let todayKey = isoDateSP env nowSP nowMs
      in case getOwnerPets env w of
           Inl e \<Rightarrow> (Inl e, w)
         | Inr ps \<Rightarrow>
             if length ps = 0 then (Inr 0, w)
             else za_pets_loop env nowSP todayKey ps w)"

section \<open>Notions used to state and prove the properties\<close>

text \<open>The log row of a (treatment, alert type, date) triple.\<close>

definition log_row :: "uuid \<Rightarrow> string \<Rightarrow> string \<Rightarrow> alert_log_entry" where
  "log_row treatmentId alertType alertDate =
     \<lparr>al_treatment_id = treatmentId, al_alert_type = alertType, al_alert_date = alertDate\<rparr>"

text \<open>What the store answers to the last-application query when it has no fault.\<close>

definition last_applied :: "database \<Rightarrow> uuid \<Rightarrow> date list" where
  "last_applied d treatmentId =
     latest (map ap_applied_on (filter (\<lambda>a. ap_treatment_id a = treatmentId) (applications d)))"

text \<open>The day offset of a treatment last applied on a given date, as part_000 computes
  it, and the log rows its two alert blocks ask for at that offset.\<close>

definition za_days :: "date \<Rightarrow> treatment \<Rightarrow> date \<Rightarrow> int" where
  "za_days nowSP t lastApplied =
     daysToNext (za_calcNextDate lastApplied (t_interval_value t) (t_interval_unit t)) nowSP"

definition za_due_rows :: "date \<Rightarrow> string \<Rightarrow> treatment \<Rightarrow> date \<Rightarrow> alert_log_entry list" where
  "za_due_rows nowSP todayKey t lastApplied =
     (let days = za_days nowSP t lastApplied
      in (if days \<in> set (za_alertsDays t)
          then [log_row (t_id t) (''upcoming_'' @ show_int days) todayKey] else []) @
         (if days < 0 then [log_row (t_id t) ''overdue_daily'' todayKey] else []))"

text \<open>The log rows the evaluation of a treatment asks for, in part_000 and in
  scripts/send-alerts.js: none without a recorded application.\<close>

definition za_due :: "database \<Rightarrow> date \<Rightarrow> string \<Rightarrow> treatment \<Rightarrow> alert_log_entry list" where
  "za_due d nowSP todayKey t =
     (case last_applied d (t_id t) of
        [] \<Rightarrow> []
      | lastApplied # _ \<Rightarrow> za_due_rows nowSP todayKey t lastApplied)"

definition sa_due :: "database \<Rightarrow> date \<Rightarrow> string \<Rightarrow> treatment \<Rightarrow> alert_log_entry list" where
  "sa_due d nowSP todayISO t =
     (case last_applied d (t_id t) of
        [] \<Rightarrow> []
      | lastAppliedOn # _ \<Rightarrow>
          let days = differenceInCalendarDays
                (calcNextDate lastAppliedOn (t_interval_value t) (t_interval_unit t)) nowSP
          in if days < 0 then [log_row (t_id t) ''overdue_daily'' todayISO]
             else if days \<in> set (sa_alerts t)
             then [log_row (t_id t) (''due_in_'' @ show_int days) todayISO]
             else [])"

text \<open>Two states of a run: the tables the runners only read are the same, and no log
  row has been removed.\<close>

definition same_tables :: "world \<Rightarrow> world \<Rightarrow> bool" where
  "same_tables w w' \<longleftrightarrow>
     pets (db w') = pets (db w) \<and> pet_members (db w') = pet_members (db w)
     \<and> treatments (db w') = treatments (db w) \<and> applications (db w') = applications (db w)
     \<and> set (alert_log (db w)) \<subseteq> set (alert_log (db w'))"

text \<open>The store's contract on the uniqueness conflict: a fault of the store's own
  never carries code 23505, so that code is only reported for a triple already logged.\<close>

definition honest :: "env \<Rightarrow> bool" where
  "honest env \<longleftrightarrow> (\<forall>q e. store_fault env q = Some e \<longrightarrow> err_code e \<noteq> ''23505'')"

text \<open>The day offset as scripts/send-alerts.js computes it.\<close>

definition sa_days :: "date \<Rightarrow> treatment \<Rightarrow> date \<Rightarrow> int" where
  "sa_days nowSP t lastAppliedOn =
     differenceInCalendarDays
       (calcNextDate lastAppliedOn (t_interval_value t) (t_interval_unit t)) nowSP"

text \<open>The two alert blocks of part_000, one after the other: the part of
  \<open>za_treatment\<close> that runs once the last application is known.\<close>

definition za_blocks ::
    "env \<Rightarrow> pet \<Rightarrow> date \<Rightarrow> string \<Rightarrow> treatment \<Rightarrow> date \<Rightarrow> world \<Rightarrow> (error + nat) \<times> world" where
  "za_blocks env pet nowSP todayKey t lastApplied w =
     (let nextDate = za_calcNextDate lastApplied (t_interval_value t) (t_interval_unit t);
          days = za_days nowSP t lastApplied
      in case (if days \<in> set (za_alertsDays t) then
                 za_notify env (t_id t) (''upcoming_'' @ show_int days) todayKey
                   (za_upcoming_text env pet t days lastApplied nextDate) w
               else (Inr 0, w)) of
           (Inl e, w1) \<Rightarrow> (Inl e, w1)
         | (Inr n1, w1) \<Rightarrow>
             (case (if days < 0 then
                      za_notify env (t_id t) ''overdue_daily'' todayKey
                        (za_overdue_text env pet t days lastApplied nextDate) w1
                    else (Inr 0, w1)) of
                (Inl e, w2) \<Rightarrow> (Inl e, w2)
              | (Inr n2, w2) \<Rightarrow> (Inr (n1 + n2), w2)))"

text \<open>The treatments of a pet in the order part_000 reads them, and the pets part_000
  visits, when the store has no fault.\<close>

definition treatments_of :: "database \<Rightarrow> uuid \<Rightarrow> treatment list" where
  "treatments_of d petId =
     sort_key (\<lambda>t. (t_category t, t_name t)) (filter (\<lambda>t. t_pet_id t = petId) (treatments d))"


text \<open>The second state's alert log is the first's followed by rows of the given set.\<close>

definition appended :: "world \<Rightarrow> world \<Rightarrow> alert_log_entry set \<Rightarrow> bool" where
  "appended w w' rows \<longleftrightarrow>
     (\<exists>new. alert_log (db w') = alert_log (db w) @ new \<and> set new \<subseteq> rows)"

section \<open>Concrete inputs\<close>

text \<open>A store with the pet Zeus, its owner, one treatment due every six months and last
  applied on 2024-01-01, and an empty alert log; a store and a channel that work, and a
  channel that answers 502. The next due date is Monday 2024-07-01: on 2024-06-01 it is
  30 days ahead, on 2024-07-06 it is 5 days past. The process runs in America/Sao_Paulo
  but for \<open>channel_up_utc\<close>, where it runs in UTC. \<open>store_reports_conflict\<close> is a
  store that answers every insert into the alert log with code 23505.\<close>

definition channel_up :: env where
  "channel_up =
     \<lparr>store_fault = (\<lambda>q. None),
      telegram = (\<lambda>msg. \<lparr>ok = True, status = 200, body = ''ok''\<rparr>),
      sp_shift = (\<lambda>d ms. 0)\<rparr>"

definition channel_down :: env where
  "channel_down =
     \<lparr>store_fault = (\<lambda>q. None),
      telegram = (\<lambda>msg. \<lparr>ok = False, status = 502, body = ''Bad Gateway''\<rparr>),
      sp_shift = (\<lambda>d ms. 0)\<rparr>"

definition channel_up_utc :: env where
  "channel_up_utc = channel_up\<lparr>sp_shift := (\<lambda>d ms. - 10800000)\<rparr>"


definition vaccine :: treatment where
  "vaccine =
     \<lparr>t_id = ''t1'', t_pet_id = ''p1'', t_category = ''vaccine'', t_name = ''V10'',
      t_interval_value = 6, t_interval_unit = ''months'', t_alerts_days = None\<rparr>"

definition store_with :: "treatment \<Rightarrow> application list \<Rightarrow> alert_log_entry list \<Rightarrow> database" where
  "store_with t apps rows =
     \<lparr>pets = [\<lparr>p_id = ''p1'', p_name = ''Zeus''\<rparr>],
      pet_members = [\<lparr>pm_pet_id = ''p1'', pm_user_id = ''u1'', pm_role = ''owner''\<rparr>],
      treatments = [t],
      applications = apps,
      alert_log = rows\<rparr>"

definition applied_jan01 :: "application list" where
  "applied_jan01 = [\<lparr>ap_treatment_id = ''t1'', ap_applied_on = MakeDay 2024 0 1\<rparr>]"

definition world0 :: world where
  "world0 = \<lparr>db = store_with vaccine applied_jan01 [], outbox = []\<rparr>"

definition world_claimed :: world where
  "world_claimed =
     \<lparr>db = store_with vaccine applied_jan01 [log_row ''t1'' ''overdue_daily'' ''2024-07-06''],
      outbox = []\<rparr>"

definition world_empty_thresholds :: world where
  "world_empty_thresholds =
     \<lparr>db = store_with (vaccine\<lparr>t_alerts_days := Some []\<rparr>) applied_jan01 [], outbox = []\<rparr>"

definition world_explicit_thresholds :: world where
  "world_explicit_thresholds =
     \<lparr>db = store_with (vaccine\<lparr>t_alerts_days := Some [30, 15, 5]\<rparr>) applied_jan01 [],
      outbox = []\<rparr>"

definition world_negative_threshold :: world where
  "world_negative_threshold =
     \<lparr>db = store_with (vaccine\<lparr>t_alerts_days := Some [30, - 5]\<rparr>) applied_jan01 [],
      outbox = []\<rparr>"

definition world_no_history :: world where
  "world_no_history = \<lparr>db = store_with vaccine [] [], outbox = []\<rparr>"

definition pet_zeus :: pet where
  "pet_zeus = \<lparr>p_id = ''p1'', p_name = ''Zeus''\<rparr>"

section \<open>The calendar is consistent\<close>

text \<open>The year, month and day read from a day number are a valid calendar date, and
  \<^verbatim>\<open>MakeDay\<close> leads back from them to the day number, and conversely.\<close>

lemma year_search_bracket:
  "DayFromYear y0 \<le> d \<Longrightarrow>
   DayFromYear (year_search y0 d) \<le> d \<and> d < DayFromYear (year_search y0 d + 1)"
proof (induction y0 d rule: year_search.induct)
  case (1 y d)
  show ?case
  proof (cases "DayFromYear (y + 1) \<le> d")
    case True
    then show ?thesis using "1.IH" by (simp add: year_search.simps [of y d])
  next
    case False
    then show ?thesis using "1.prems" by (simp add: year_search.simps [of y d])
  qed
qed

lemma DayFromYear_upper: "0 \<le> q \<Longrightarrow> DayFromYear (1970 + q) \<le> 366 * q"
proof (induction q rule: int_ge_induct)
  case base
  show ?case by (simp add: DayFromYear_def)
next
  case (step i)
  have "DayFromYear (1970 + (i + 1)) = DayFromYear (1970 + i) + DaysInYear (1970 + i)"
    using DayFromYear_step [of "1970 + i"] by (simp add: add.assoc)
  then show ?case using step.IH DaysInYear_bounds [of "1970 + i"] by simp
qed

lemma DayFromYear_lower: "q \<le> 0 \<Longrightarrow> DayFromYear (1970 + q) \<le> 365 * q"
proof (induction q rule: int_le_induct)
  case base
  show ?case by (simp add: DayFromYear_def)
next
  case (step i)
  have "DayFromYear (1970 + i) = DayFromYear (1970 + (i - 1)) + DaysInYear (1970 + (i - 1))"
    using DayFromYear_step [of "1970 + (i - 1)"] by simp
  then show ?case using step.IH DaysInYear_bounds [of "1970 + (i - 1)"] by simp
qed

lemma year_estimate_le: "DayFromYear (year_estimate d) \<le> d"
proof (cases "0 \<le> d")
  case True
  then have "0 \<le> d div 366" by simp
  then have "DayFromYear (1970 + d div 366) \<le> 366 * (d div 366)" by (rule DayFromYear_upper)
  moreover have "366 * (d div 366) \<le> d" by simp
  ultimately show ?thesis using True by (simp add: year_estimate_def)
next
  case False
  then have "d div 365 \<le> 0" by simp
  then have "DayFromYear (1970 + d div 365) \<le> 365 * (d div 365)" by (rule DayFromYear_lower)
  moreover have "365 * (d div 365) \<le> d" by simp
  ultimately show ?thesis using False by (simp add: year_estimate_def)
qed

lemma YearFromDay_bracket:
  "DayFromYear (YearFromDay d) \<le> d \<and> d < DayFromYear (YearFromDay d + 1)"
  unfolding YearFromDay_def by (rule year_search_bracket [OF year_estimate_le])

lemma YearFromDay_unique:
  assumes "DayFromYear y \<le> d" and "d < DayFromYear (y + 1)"
  shows "YearFromDay d = y"
proof (rule ccontr)
  assume ne: "YearFromDay d \<noteq> y"
  note b = YearFromDay_bracket [of d]
  show False
  proof (cases "YearFromDay d < y")
    case True
    then have "DayFromYear (YearFromDay d + 1) \<le> DayFromYear y"
      by (intro DayFromYear_mono) simp
    then show False using b assms by simp
  next
    case False
    then have "y + 1 \<le> YearFromDay d" using ne by simp
    then have "DayFromYear (y + 1) \<le> DayFromYear (YearFromDay d)"
      by (rule DayFromYear_mono)
    then show False using b assms by simp
  qed
qed


lemma InLeapYear_cases: "InLeapYear y = 0 \<or> InLeapYear y = 1"
  by (simp add: InLeapYear_def DaysInYear_def)

lemma month_cases:
  "0 \<le> m \<Longrightarrow> m < 12 \<Longrightarrow>
   m = 0 \<or> m = 1 \<or> m = 2 \<or> m = 3 \<or> m = 4 \<or> m = 5 \<or> m = 6 \<or> m = 7 \<or> m = 8 \<or> m = 9
   \<or> m = 10 \<or> m = (11::int)"
  by arith

lemma month_start_simps:
  "month_start y 0 = 0" "month_start y 1 = 31" "month_start y 2 = 59 + InLeapYear y"
  "month_start y 3 = 90 + InLeapYear y" "month_start y 4 = 120 + InLeapYear y"
  "month_start y 5 = 151 + InLeapYear y" "month_start y 6 = 181 + InLeapYear y"
  "month_start y 7 = 212 + InLeapYear y" "month_start y 8 = 243 + InLeapYear y"
  "month_start y 9 = 273 + InLeapYear y" "month_start y 10 = 304 + InLeapYear y"
  "month_start y 11 = 334 + InLeapYear y" "month_start y 12 = 365 + InLeapYear y"
  by (simp_all add: month_start_def)

lemma month_of_offset:
  assumes m: "0 \<le> m" "m < 12" and n: "month_start y m \<le> n" "n < month_start y (m + 1)"
  shows "(if n < month_start y 1 then 0 else if n < month_start y 2 then 1
      else if n < month_start y 3 then 2 else if n < month_start y 4 then 3
      else if n < month_start y 5 then 4 else if n < month_start y 6 then 5
      else if n < month_start y 7 then 6 else if n < month_start y 8 then 7
      else if n < month_start y 9 then 8 else if n < month_start y 10 then 9
      else if n < month_start y 11 then 10 else 11) = m"
  using month_cases [OF m] n InLeapYear_cases [of y]
  by (elim disjE) (simp_all add: month_start_simps)

lemma offset_in_year:
  assumes m: "0 \<le> m" "m < 12" and n: "month_start y m \<le> n" "n < month_start y (m + 1)"
  shows "0 \<le> n \<and> n < DaysInYear y"
  using month_cases [OF m] n InLeapYear_cases [of y]
  by (elim disjE) (simp_all add: month_start_simps InLeapYear_def)

lemma civil_of_MakeDay:
  assumes m: "0 \<le> m" "m < 12" and dt: "1 \<le> dt" "dt \<le> DaysInMonth y m"
  shows "getFullYear (MakeDay y m dt) = y \<and> getMonth (MakeDay y m dt) = m
         \<and> getDate (MakeDay y m dt) = dt"
proof -
  define n where "n = month_start y m + dt - 1"
  have md: "MakeDay y m dt = DayFromYear y + n"
    using m by (simp add: MakeDay_def n_def)
  have n: "month_start y m \<le> n" "n < month_start y (m + 1)"
    using dt by (simp_all add: n_def DaysInMonth_def)
  have "0 \<le> n \<and> n < DaysInYear y" by (rule offset_in_year [OF m n])
  then have yr: "YearFromDay (DayFromYear y + n) = y"
    by (intro YearFromDay_unique) (simp_all add: DayFromYear_step)
  have mo: "getMonth (DayFromYear y + n) = m"
    using month_of_offset [OF m n] by (simp add: getMonth_def DayWithinYear_def yr Let_def)
  have da: "getDate (DayFromYear y + n) = dt"
    by (simp add: getDate_def DayWithinYear_def yr mo) (simp add: n_def)
  show ?thesis
    unfolding md using yr mo da by (simp add: getFullYear_def)
qed

lemma getMonth_range: "0 \<le> getMonth d \<and> getMonth d < 12"
  by (simp add: getMonth_def Let_def)

lemma getDate_range: "1 \<le> getDate d \<and> getDate d \<le> DaysInMonth (getFullYear d) (getMonth d)"
proof -
  define y where "y = YearFromDay d"
  define n where "n = DayWithinYear d"
  have n: "0 \<le> n" "n < DaysInYear y"
    using YearFromDay_bracket [of d]
    by (simp_all add: n_def y_def DayWithinYear_def DayFromYear_step)
  then have n': "n < 365 + InLeapYear y" by (simp add: InLeapYear_def)
  show ?thesis
    unfolding getDate_def getFullYear_def DaysInMonth_def getMonth_def Let_def
      y_def [symmetric] n_def [symmetric]
    using n(1) n' InLeapYear_cases [of y]
    by (simp add: month_start_simps)
qed

lemma MakeDay_civil: "MakeDay (getFullYear d) (getMonth d) (getDate d) = d"
  using getMonth_range [of d]
  by (simp add: MakeDay_def getDate_def getFullYear_def DayWithinYear_def)

lemma MakeDay_normal: "MakeDay y m dt = MakeDay (y + m div 12) (m mod 12) dt"
  by (simp add: MakeDay_def)

lemma MakeDay_zero:
  "MakeDay y (m + 1) 0 = MakeDay (y + m div 12) (m mod 12) (DaysInMonth (y + m div 12) (m mod 12))"
proof (cases "m mod 12 = 11")
  case True
  have "(m + 1) mod 12 = 0" using True mod_succ [of 12 m] by simp
  moreover have "(m + 1) div 12 = m div 12 + 1"
    using True div_succ [of 12 m] mod_succ [of 12 m] by simp
  ultimately show ?thesis
    using True
    by (simp add: MakeDay_def DaysInMonth_def month_start_simps DayFromYear_step
        InLeapYear_def add.assoc [symmetric] Let_def)
next
  case False
  have "(m + 1) mod 12 = m mod 12 + 1" using False mod_succ [of 12 m] by simp
  moreover have "(m + 1) div 12 = m div 12"
    using False div_succ [of 12 m] mod_succ [of 12 m] by simp
  ultimately show ?thesis
    by (simp add: MakeDay_def DaysInMonth_def)
qed

lemma DaysInMonth_pos: "0 \<le> m \<Longrightarrow> m < 12 \<Longrightarrow> 28 \<le> DaysInMonth y m"
  using month_cases [of m] InLeapYear_cases [of y]
  by (auto simp: DaysInMonth_def month_start_simps)

lemma addMonths_civil:
  fixes d amount :: int
  defines "y' \<equiv> getFullYear d + (getMonth d + amount) div 12"
    and "m' \<equiv> (getMonth d + amount) mod 12"
  shows "getFullYear (addMonths d amount) = y' \<and> getMonth (addMonths d amount) = m'
         \<and> getDate (addMonths d amount) = min (getDate d) (DaysInMonth y' m')"
proof (cases "amount = 0")
  case True
  have "y' = getFullYear d" "m' = getMonth d"
    using getMonth_range [of d] True by (simp_all add: y'_def m'_def)
  then show ?thesis using True getDate_range [of d] by (simp add: addMonths_def)
next
  case False
  define e where "e = MakeDay (getFullYear d) (getMonth d + amount + 1) 0"
  have m': "0 \<le> m'" "m' < 12" by (simp_all add: m'_def)
  have e: "e = MakeDay y' m' (DaysInMonth y' m')"
    unfolding e_def y'_def m'_def by (rule MakeDay_zero)
  have dim: "1 \<le> DaysInMonth y' m'" using DaysInMonth_pos [OF m', of y'] by simp
  have ce: "getFullYear e = y' \<and> getMonth e = m' \<and> getDate e = DaysInMonth y' m'"
    unfolding e using civil_of_MakeDay [OF m' dim] by simp
  show ?thesis
  proof (cases "getDate d \<ge> DaysInMonth y' m'")
    case True
    then have "addMonths d amount = e"
      using False ce by (simp add: addMonths_def Let_def e_def [symmetric])
    then show ?thesis using ce True by (simp add: min_def)
  next
    case lt: False
    then have "addMonths d amount = MakeDay y' m' (getDate d)"
      using False ce by (simp add: addMonths_def Let_def e_def [symmetric])
    moreover have "1 \<le> getDate d" "getDate d \<le> DaysInMonth y' m'"
      using getDate_range [of d] lt by simp_all
    ultimately show ?thesis
      using civil_of_MakeDay [OF m', of "getDate d" y'] lt by (simp add: min_def)
  qed
qed

section \<open>What the store requests and one alert attempt do\<close>

text \<open>Each request and each alert attempt written as one case distinction on the store
  faults, the presence of the log row and the answer of the channel.\<close>

lemma log_row_eq:
  "(al_treatment_id r = a \<and> al_alert_type r = b \<and> al_alert_date r = c) \<longleftrightarrow> r = log_row a b c"
  by (cases r) (auto simp: log_row_def)

lemma select_alert_log_eq:
  "select_alert_log env d a b c =
     (case store_fault env (SelectAlertLog a b c) of
        Some e \<Rightarrow> Inl e
      | None \<Rightarrow> Inr (take 1 (filter (\<lambda>r. r = log_row a b c) (alert_log d))))"
  by (simp add: select_alert_log_def log_row_eq split: option.splits)

lemma filter_eq_nonempty: "filter (\<lambda>r. r = x) xs \<noteq> [] \<longleftrightarrow> x \<in> set xs"
  by (auto simp: filter_empty_conv)

lemma za_alreadyLogged_eq:
  "za_alreadyLogged env a b c w =
     (case store_fault env (SelectAlertLog a b c) of
        Some e \<Rightarrow> Inl (StoreFailure e)
      | None \<Rightarrow> Inr (log_row a b c \<in> set (alert_log (db w))))"
  by (simp add: za_alreadyLogged_def select_alert_log_eq filter_eq_nonempty
      split: option.splits)

lemma insert_alert_log_eq:
  "insert_alert_log env d (log_row a b c) =
     (case store_fault env (InsertAlertLog a b c) of
        Some e \<Rightarrow> (Some e, d)
      | None \<Rightarrow>
          if log_row a b c \<in> set (alert_log d) then (Some (StoreError ''23505''), d)
          else (None, d\<lparr>alert_log := alert_log d @ [log_row a b c]\<rparr>))"
  by (simp add: insert_alert_log_def log_row_def split: option.splits)

lemma sa_alreadyLogged_eq:
  "sa_alreadyLogged env a b c w =
     (case store_fault env (InsertAlertLog a b c) of
        Some e \<Rightarrow> (if err_code e = ''23505'' then Inr True else Inl (StoreFailure e), w)
      | None \<Rightarrow>
          if log_row a b c \<in> set (alert_log (db w)) then (Inr True, w)
          else (Inr False, w\<lparr>db := (db w)\<lparr>alert_log := alert_log (db w) @ [log_row a b c]\<rparr>\<rparr>))"
  by (simp add: sa_alreadyLogged_def insert_alert_log_eq [unfolded log_row_def]
      log_row_def split: option.splits)

lemma insertLog_eq:
  "insertLog env a b c w =
     (case store_fault env (InsertAlertLog a b c) of
        Some e \<Rightarrow> (Inl (StoreFailure e), w)
      | None \<Rightarrow>
          if log_row a b c \<in> set (alert_log (db w))
          then (Inl (StoreFailure (StoreError ''23505'')), w)
          else (Inr (), w\<lparr>db := (db w)\<lparr>alert_log := alert_log (db w) @ [log_row a b c]\<rparr>\<rparr>))"
  by (simp add: insertLog_def insert_alert_log_eq [unfolded log_row_def]
      log_row_def split: option.splits)

lemma za_notify_eq:
  "za_notify env a b c msg w =
     (case store_fault env (SelectAlertLog a b c) of
        Some e \<Rightarrow> (Inl (StoreFailure e), w)
      | None \<Rightarrow>
          if log_row a b c \<in> set (alert_log (db w)) then (Inr 0, w)
          else if \<not> ok (telegram env msg)
          then (Inl (TelegramFailure (status (telegram env msg)) (body (telegram env msg))), w)
          else (case store_fault env (InsertAlertLog a b c) of
                  Some e \<Rightarrow> (Inl (StoreFailure e), w\<lparr>outbox := outbox w @ [msg]\<rparr>)
                | None \<Rightarrow>
                    (Inr 1, w\<lparr>outbox := outbox w @ [msg],
                               db := (db w)\<lparr>alert_log := alert_log (db w) @ [log_row a b c]\<rparr>\<rparr>)))"
  by (simp add: za_notify_def za_alreadyLogged_eq telegramSend_def insertLog_eq Let_def
      split: option.splits)

lemma sa_notify_eq:
  "sa_notify env a b c msg w =
     (case store_fault env (InsertAlertLog a b c) of
        Some e \<Rightarrow> (if err_code e = ''23505'' then Inr () else Inl (StoreFailure e), w)
      | None \<Rightarrow>
          if log_row a b c \<in> set (alert_log (db w)) then (Inr (), w)
          else if \<not> ok (telegram env msg)
          then (Inl (TelegramFailure (status (telegram env msg)) (body (telegram env msg))),
                w\<lparr>db := (db w)\<lparr>alert_log := alert_log (db w) @ [log_row a b c]\<rparr>\<rparr>)
          else (Inr (), w\<lparr>db := (db w)\<lparr>alert_log := alert_log (db w) @ [log_row a b c]\<rparr>,
                           outbox := outbox w @ [msg]\<rparr>))"
  by (simp add: sa_notify_def sa_alreadyLogged_eq telegramSend_def Let_def
      split: option.splits)

text \<open>The date arithmetic of part_000 is that of the Schedule Calculator.\<close>

lemma adjustIfWeekend_eq: "adjustIfWeekend d = adjustWeekend d"
  by (simp add: adjustIfWeekend_def adjustWeekend_def)

lemma za_calcNextDate_eq: "za_calcNextDate d v unit = calcNextDate d v unit"
  by (simp add: za_calcNextDate_def calcNextDate_def adjustIfWeekend_eq)

lemma select_last_application_eq:
  "select_last_application env d tid =
     (case store_fault env (SelectApplications tid) of
        Some e \<Rightarrow> Inl e | None \<Rightarrow> Inr (last_applied d tid))"
  by (simp add: select_last_application_def last_applied_def split: option.splits)

lemma same_tables_refl: "same_tables w w"
  by (simp add: same_tables_def)

lemma same_tables_trans: "same_tables w w1 \<Longrightarrow> same_tables w1 w2 \<Longrightarrow> same_tables w w2"
  by (auto simp: same_tables_def)

lemma same_tables_last_applied: "same_tables w w' \<Longrightarrow> last_applied (db w') = last_applied (db w)"
  by (rule ext) (simp add: same_tables_def last_applied_def)

lemma same_tables_za_due: "same_tables w w' \<Longrightarrow> za_due (db w') = za_due (db w)"
  by (intro ext) (simp add: za_due_def same_tables_last_applied)

lemma same_tables_sa_due: "same_tables w w' \<Longrightarrow> sa_due (db w') = sa_due (db w)"
  by (intro ext) (simp add: sa_due_def same_tables_last_applied)

lemma same_tables_log: "same_tables w w' \<Longrightarrow> set (alert_log (db w)) \<subseteq> set (alert_log (db w'))"
  by (simp add: same_tables_def)

section \<open>One alert attempt\<close>

text \<open>Three facts recur at every level of a run: it reads the other tables only and
  never removes a log row (frame); when it completes, the rows it asked for are logged
  (done); and when they are all logged already, it changes nothing (noop).\<close>

lemma za_notify_frame: "za_notify env a b c msg w = (r, w') \<Longrightarrow> same_tables w w'"
  by (auto simp: za_notify_eq same_tables_def split: option.splits if_splits)

lemma za_notify_done:
  "za_notify env a b c msg w = (Inr n, w') \<Longrightarrow> log_row a b c \<in> set (alert_log (db w'))"
  by (auto simp: za_notify_eq split: option.splits if_splits)


lemma sa_notify_frame: "sa_notify env a b c msg w = (r, w') \<Longrightarrow> same_tables w w'"
  by (auto simp: sa_notify_eq same_tables_def split: option.splits if_splits)

lemma sa_notify_done:
  "honest env \<Longrightarrow> sa_notify env a b c msg w = (Inr u, w') \<Longrightarrow>
   log_row a b c \<in> set (alert_log (db w'))"
  by (auto simp: sa_notify_eq honest_def split: option.splits if_splits)


section \<open>One treatment\<close>

lemma sa_treatment_cases:
  obtains (fault) e where "store_fault env (SelectApplications (t_id t)) = Some e"
      and "sa_treatment env zeus nowSP todayISO t w = (Inl (StoreFailure e), w)"
  | (skip) "sa_due (db w) nowSP todayISO t = []"
      and "sa_treatment env zeus nowSP todayISO t w = (Inr (), w)"
  | (alert) ty msg where "sa_due (db w) nowSP todayISO t = [log_row (t_id t) ty todayISO]"
      and "sa_treatment env zeus nowSP todayISO t w = sa_notify env (t_id t) ty todayISO msg w"
proof (cases "store_fault env (SelectApplications (t_id t))")
  case (Some e)
  then have "sa_treatment env zeus nowSP todayISO t w = (Inl (StoreFailure e), w)"
    by (simp add: sa_treatment_def select_last_application_eq)
  with Some show ?thesis by (rule fault)
next
  case None
  show ?thesis
  proof (cases "last_applied (db w) (t_id t)")
    case Nil
    then have "sa_due (db w) nowSP todayISO t = []"
      and "sa_treatment env zeus nowSP todayISO t w = (Inr (), w)"
      using None by (simp_all add: sa_due_def sa_treatment_def select_last_application_eq)
    then show ?thesis by (rule skip)
  next
    case (Cons a rest)
    define days where "days = sa_days nowSP t a"
    consider "days < 0" | "\<not> days < 0" "days \<in> set (sa_alerts t)"
      | "\<not> days < 0" "days \<notin> set (sa_alerts t)" by blast
    then show ?thesis
    proof cases
      case 1
      then have "sa_due (db w) nowSP todayISO t = [log_row (t_id t) ''overdue_daily'' todayISO]"
        and "sa_treatment env zeus nowSP todayISO t w =
          sa_notify env (t_id t) ''overdue_daily'' todayISO
            (sa_overdue_text zeus t days a
               (calcNextDate a (t_interval_value t) (t_interval_unit t))) w"
        using None Cons
        by (simp_all add: sa_due_def sa_treatment_def select_last_application_eq Let_def
            days_def sa_days_def)
      then show ?thesis by (rule alert)
    next
      case 2
      then have "sa_due (db w) nowSP todayISO t =
          [log_row (t_id t) (''due_in_'' @ show_int days) todayISO]"
        and "sa_treatment env zeus nowSP todayISO t w =
          sa_notify env (t_id t) (''due_in_'' @ show_int days) todayISO
            (sa_due_text zeus t days a
               (calcNextDate a (t_interval_value t) (t_interval_unit t))) w"
        using None Cons
        by (simp_all add: sa_due_def sa_treatment_def select_last_application_eq Let_def
            days_def sa_days_def)
      then show ?thesis by (rule alert)
    next
      case 3
      then have "sa_due (db w) nowSP todayISO t = []"
        and "sa_treatment env zeus nowSP todayISO t w = (Inr (), w)"
        using None Cons
        by (simp_all add: sa_due_def sa_treatment_def select_last_application_eq Let_def
            days_def sa_days_def)
      then show ?thesis by (rule skip)
    qed
  qed
qed

lemma sa_treatment_frame:
  "sa_treatment env zeus nowSP todayISO t w = (r, w') \<Longrightarrow> same_tables w w'"
  by (cases rule: sa_treatment_cases [where env = env and t = t and w = w and nowSP = nowSP and todayISO = todayISO and zeus = zeus])
     (auto simp: same_tables_refl dest: sa_notify_frame)

lemma sa_treatment_done:
  "honest env \<Longrightarrow> sa_treatment env zeus nowSP todayISO t w = (Inr u, w') \<Longrightarrow>
   set (sa_due (db w) nowSP todayISO t) \<subseteq> set (alert_log (db w'))"
  by (cases rule: sa_treatment_cases [where env = env and t = t and w = w and nowSP = nowSP and todayISO = todayISO and zeus = zeus])
     (auto dest: sa_notify_done)


lemma za_treatment_eq:
  "za_treatment env pet nowSP todayKey t w =
     (case store_fault env (SelectApplications (t_id t)) of
        Some e \<Rightarrow> (Inl (StoreFailure e), w)
      | None \<Rightarrow>
          (case last_applied (db w) (t_id t) of
             [] \<Rightarrow> (Inr 0, w)
           | lastApplied # _ \<Rightarrow> za_blocks env pet nowSP todayKey t lastApplied w))"
  by (simp add: za_treatment_def getLastApplicationDate_def select_last_application_eq
      za_blocks_def za_days_def Let_def split: option.splits list.splits)

lemma za_blocks_frame:
  assumes "za_blocks env pet nowSP todayKey t a w = (r, w')"
  shows "same_tables w w'"
proof -
  define days where "days = za_days nowSP t a"
  define nextDate where "nextDate = za_calcNextDate a (t_interval_value t) (t_interval_unit t)"
  define U where "U = (if days \<in> set (za_alertsDays t) then
                 za_notify env (t_id t) (''upcoming_'' @ show_int days) todayKey
                   (za_upcoming_text env pet t days a nextDate) w
               else (Inr 0, w))"
  obtain r1 w1 where U: "U = (r1, w1)" by (cases U)
  have f1: "same_tables w w1"
    using U by (auto simp: U_def same_tables_refl split: if_splits dest: za_notify_frame)
  show ?thesis
  proof (cases r1)
    case (Inl e)
    then have "w' = w1"
      using assms U
      by (simp add: za_blocks_def Let_def days_def [symmetric] nextDate_def [symmetric]
          U_def [symmetric])
    then show ?thesis using f1 by simp
  next
    case (Inr n1)
    define V where "V = (if days < 0 then
                      za_notify env (t_id t) ''overdue_daily'' todayKey
                        (za_overdue_text env pet t days a nextDate) w1
                    else (Inr 0, w1))"
    obtain r2 w2 where V: "V = (r2, w2)" by (cases V)
    have f2: "same_tables w1 w2"
      using V by (auto simp: V_def same_tables_refl split: if_splits dest: za_notify_frame)
    have "w' = w2"
      using assms U Inr V
      by (simp add: za_blocks_def Let_def days_def [symmetric] nextDate_def [symmetric]
          U_def [symmetric] V_def [symmetric] split: sum.splits)
    then show ?thesis using f1 f2 same_tables_trans by blast
  qed
qed

lemma za_blocks_done:
  assumes "za_blocks env pet nowSP todayKey t a w = (Inr n, w')"
  shows "set (za_due_rows nowSP todayKey t a) \<subseteq> set (alert_log (db w'))"
proof -
  define days where "days = za_days nowSP t a"
  define nextDate where "nextDate = za_calcNextDate a (t_interval_value t) (t_interval_unit t)"
  define U where "U = (if days \<in> set (za_alertsDays t) then
                 za_notify env (t_id t) (''upcoming_'' @ show_int days) todayKey
                   (za_upcoming_text env pet t days a nextDate) w
               else (Inr 0, w))"
  obtain r1 w1 where U: "U = (r1, w1)" by (cases U)
  define V where "V = (if days < 0 then
                      za_notify env (t_id t) ''overdue_daily'' todayKey
                        (za_overdue_text env pet t days a nextDate) w1
                    else (Inr 0, w1))"
  obtain r2 w2 where V: "V = (r2, w2)" by (cases V)
  have e: "(case U of (Inl e, w1) \<Rightarrow> (Inl e, w1)
            | (Inr n1, w1) \<Rightarrow>
                (case (if days < 0 then
                      za_notify env (t_id t) ''overdue_daily'' todayKey
                        (za_overdue_text env pet t days a nextDate) w1
                    else (Inr 0, w1)) of (Inl e, w2) \<Rightarrow> (Inl e, w2)
                 | (Inr n2, w2) \<Rightarrow> (Inr (n1 + n2), w2))) = (Inr n, w')"
    using assms
    by (simp add: za_blocks_def Let_def days_def [symmetric] nextDate_def [symmetric]
        U_def [symmetric])
  then obtain n1 where r1: "r1 = Inr n1" using U by (cases r1) simp_all
  from e U r1 V obtain n2 where r2: "r2 = Inr n2" and w': "w' = w2"
    by (cases r2) (simp_all add: V_def [symmetric])
  have f2: "set (alert_log (db w1)) \<subseteq> set (alert_log (db w2))"
    using V by (auto simp: V_def split: if_splits dest: za_notify_frame [THEN same_tables_log])
  have up: "days \<in> set (za_alertsDays t) \<Longrightarrow>
      log_row (t_id t) (''upcoming_'' @ show_int days) todayKey \<in> set (alert_log (db w1))"
    using U r1 by (auto simp: U_def dest: za_notify_done)
  have ov: "days < 0 \<Longrightarrow> log_row (t_id t) ''overdue_daily'' todayKey \<in> set (alert_log (db w2))"
    using V r2 by (auto simp: V_def dest: za_notify_done)
  show ?thesis
    unfolding za_due_rows_def Let_def days_def [symmetric] w' using up ov f2 by auto
qed


lemma za_treatment_frame:
  "za_treatment env pet nowSP todayKey t w = (r, w') \<Longrightarrow> same_tables w w'"
  by (auto simp: za_treatment_eq same_tables_refl split: option.splits list.splits
      dest: za_blocks_frame)

lemma za_treatment_done:
  "za_treatment env pet nowSP todayKey t w = (Inr n, w') \<Longrightarrow>
   set (za_due (db w) nowSP todayKey t) \<subseteq> set (alert_log (db w'))"
  unfolding za_treatment_eq za_due_def
  by (auto split: option.splits list.splits dest: za_blocks_done)


section \<open>The loops\<close>

lemma sa_loop_frame:
  "sa_loop env zeus nowSP todayISO ts w = (r, w') \<Longrightarrow> same_tables w w'"
proof (induction ts arbitrary: w w')
  case Nil
  then show ?case by (simp add: same_tables_refl)
next
  case (Cons t ts)
  obtain r1 w1 where st: "sa_treatment env zeus nowSP todayISO t w = (r1, w1)"
    by (cases "sa_treatment env zeus nowSP todayISO t w")
  have f1: "same_tables w w1" by (rule sa_treatment_frame [OF st])
  show ?case
  proof (cases r1)
    case (Inl e)
    then have "w' = w1" using Cons.prems st by simp
    then show ?thesis using f1 by simp
  next
    case (Inr u)
    then have "sa_loop env zeus nowSP todayISO ts w1 = (r, w')" using Cons.prems st by simp
    then have "same_tables w1 w'" by (rule Cons.IH)
    with f1 show ?thesis by (rule same_tables_trans)
  qed
qed

lemma sa_loop_done:
  assumes "honest env"
  shows "sa_loop env zeus nowSP todayISO ts w = (Inr u, w') \<Longrightarrow> t \<in> set ts \<Longrightarrow>
         set (sa_due (db w) nowSP todayISO t) \<subseteq> set (alert_log (db w'))"
proof (induction ts arbitrary: w w')
  case Nil
  then show ?case by simp
next
  case (Cons x ts)
  obtain r1 w1 where st: "sa_treatment env zeus nowSP todayISO x w = (r1, w1)"
    by (cases "sa_treatment env zeus nowSP todayISO x w")
  from Cons.prems(1) st obtain u1 where r1: "r1 = Inr u1"
    and rest: "sa_loop env zeus nowSP todayISO ts w1 = (Inr u, w')"
    by (cases r1) simp_all
  have f1: "same_tables w w1" by (rule sa_treatment_frame [OF st])
  have f2: "same_tables w1 w'" by (rule sa_loop_frame [OF rest])
  show ?case
  proof (cases "t = x")
    case True
    have "set (sa_due (db w) nowSP todayISO x) \<subseteq> set (alert_log (db w1))"
      using sa_treatment_done [OF assms] st r1 by simp
    then show ?thesis using True same_tables_log [OF f2] by blast
  next
    case False
    then have "t \<in> set ts" using Cons.prems(2) by simp
    then have "set (sa_due (db w1) nowSP todayISO t) \<subseteq> set (alert_log (db w'))"
      using Cons.IH [OF rest] by simp
    then show ?thesis by (simp add: same_tables_sa_due [OF f1])
  qed
qed


lemma za_treatments_loop_frame:
  "za_treatments_loop env pet nowSP todayKey ts w = (r, w') \<Longrightarrow> same_tables w w'"
proof (induction ts arbitrary: w r w')
  case Nil
  then show ?case by (simp add: same_tables_refl)
next
  case (Cons t ts)
  obtain r1 w1 where st: "za_treatment env pet nowSP todayKey t w = (r1, w1)"
    by (cases "za_treatment env pet nowSP todayKey t w")
  have f1: "same_tables w w1" by (rule za_treatment_frame [OF st])
  show ?case
  proof (cases r1)
    case (Inl e)
    then have "w' = w1" using Cons.prems st by simp
    then show ?thesis using f1 by simp
  next
    case (Inr n)
    obtain r2 w2 where lp: "za_treatments_loop env pet nowSP todayKey ts w1 = (r2, w2)"
      by (cases "za_treatments_loop env pet nowSP todayKey ts w1")
    have "w' = w2" using Cons.prems st Inr lp by (cases r2) simp_all
    moreover have "same_tables w1 w2" by (rule Cons.IH [OF lp])
    ultimately show ?thesis using f1 same_tables_trans by blast
  qed
qed

lemma za_treatments_loop_done:
  "za_treatments_loop env pet nowSP todayKey ts w = (Inr n, w') \<Longrightarrow> t \<in> set ts \<Longrightarrow>
   set (za_due (db w) nowSP todayKey t) \<subseteq> set (alert_log (db w'))"
proof (induction ts arbitrary: w n w')
  case Nil
  then show ?case by simp
next
  case (Cons x ts)
  obtain r1 w1 where st: "za_treatment env pet nowSP todayKey x w = (r1, w1)"
    by (cases "za_treatment env pet nowSP todayKey x w")
  obtain r2 w2 where lp: "za_treatments_loop env pet nowSP todayKey ts w1 = (r2, w2)"
    by (cases "za_treatments_loop env pet nowSP todayKey ts w1")
  from Cons.prems(1) st obtain n1 where r1: "r1 = Inr n1" by (cases r1) simp_all
  from Cons.prems(1) st r1 lp obtain n2 where r2: "r2 = Inr n2" and w': "w' = w2"
    by (cases r2) simp_all
  have f1: "same_tables w w1" by (rule za_treatment_frame [OF st])
  have f2: "same_tables w1 w2" by (rule za_treatments_loop_frame [OF lp])
  show ?case
  proof (cases "t = x")
    case True
    have "set (za_due (db w) nowSP todayKey x) \<subseteq> set (alert_log (db w1))"
      using za_treatment_done st r1 by simp
    then show ?thesis using True same_tables_log [OF f2] w' by blast
  next
    case False
    then have "t \<in> set ts" using Cons.prems(2) by simp
    then have "set (za_due (db w1) nowSP todayKey t) \<subseteq> set (alert_log (db w2))"
      using Cons.IH lp r2 by simp
    then show ?thesis by (simp add: same_tables_za_due [OF f1] w')
  qed
qed


lemma getTreatmentsByPet_eq:
  "getTreatmentsByPet env petId w =
     (case store_fault env (SelectTreatments petId) of
        Some e \<Rightarrow> Inl (StoreFailure e)
      | None \<Rightarrow> Inr (treatments_of (db w) petId))"
  by (simp add: getTreatmentsByPet_def select_treatments_ordered_def select_treatments_def
      treatments_of_def split: option.splits)

lemma same_tables_treatments_of: "same_tables w w' \<Longrightarrow> treatments_of (db w') = treatments_of (db w)"
  by (rule ext) (simp add: same_tables_def treatments_of_def)

lemma za_pets_loop_frame:
  "za_pets_loop env nowSP todayKey ps w = (r, w') \<Longrightarrow> same_tables w w'"
proof (induction ps arbitrary: w r w')
  case Nil
  then show ?case by (simp add: same_tables_refl)
next
  case (Cons p ps)
  show ?case
  proof (cases "store_fault env (SelectTreatments (p_id p))")
    case (Some e)
    then have "w' = w" using Cons.prems by (simp add: getTreatmentsByPet_eq)
    then show ?thesis by (simp add: same_tables_refl)
  next
    case None
    define ts where "ts = treatments_of (db w) (p_id p)"
    obtain r1 w1 where tl: "za_treatments_loop env p nowSP todayKey ts w = (r1, w1)"
      by (cases "za_treatments_loop env p nowSP todayKey ts w")
    have f1: "same_tables w w1" by (rule za_treatments_loop_frame [OF tl])
    show ?thesis
    proof (cases r1)
      case (Inl e)
      then have "w' = w1"
        using Cons.prems None tl by (simp add: getTreatmentsByPet_eq ts_def [symmetric])
      then show ?thesis using f1 by simp
    next
      case (Inr n)
      obtain r2 w2 where lp: "za_pets_loop env nowSP todayKey ps w1 = (r2, w2)"
        by (cases "za_pets_loop env nowSP todayKey ps w1")
      have "w' = w2"
        using Cons.prems None tl Inr lp
        by (cases r2) (simp_all add: getTreatmentsByPet_eq ts_def [symmetric])
      moreover have "same_tables w1 w2" by (rule Cons.IH [OF lp])
      ultimately show ?thesis using f1 same_tables_trans by blast
    qed
  qed
qed

lemma za_pets_loop_done:
  "za_pets_loop env nowSP todayKey ps w = (Inr n, w') \<Longrightarrow> p \<in> set ps \<Longrightarrow>
   t \<in> set (treatments_of (db w) (p_id p)) \<Longrightarrow>
   set (za_due (db w) nowSP todayKey t) \<subseteq> set (alert_log (db w'))"
proof (induction ps arbitrary: w n w')
  case Nil
  then show ?case by simp
next
  case (Cons x ps)
  define ts where "ts = treatments_of (db w) (p_id x)"
  have nf: "store_fault env (SelectTreatments (p_id x)) = None"
    using Cons.prems(1) by (cases "store_fault env (SelectTreatments (p_id x))")
      (simp_all add: getTreatmentsByPet_eq)
  obtain r1 w1 where tl: "za_treatments_loop env x nowSP todayKey ts w = (r1, w1)"
    by (cases "za_treatments_loop env x nowSP todayKey ts w")
  obtain r2 w2 where lp: "za_pets_loop env nowSP todayKey ps w1 = (r2, w2)"
    by (cases "za_pets_loop env nowSP todayKey ps w1")
  from Cons.prems(1) nf tl obtain n1 where r1: "r1 = Inr n1"
    by (cases r1) (simp_all add: getTreatmentsByPet_eq ts_def [symmetric])
  from Cons.prems(1) nf tl r1 lp obtain n2 where r2: "r2 = Inr n2" and w': "w' = w2"
    by (cases r2) (simp_all add: getTreatmentsByPet_eq ts_def [symmetric])
  have f1: "same_tables w w1" by (rule za_treatments_loop_frame [OF tl])
  have f2: "same_tables w1 w2" by (rule za_pets_loop_frame [OF lp])
  have here: "set (za_due (db w) nowSP todayKey t) \<subseteq> set (alert_log (db w2))"
    if "t \<in> set ts"
    using za_treatments_loop_done [OF tl [unfolded r1] that] same_tables_log [OF f2] by blast
  have later: "set (za_due (db w) nowSP todayKey t) \<subseteq> set (alert_log (db w2))"
    if "p \<in> set ps"
  proof -
    have "t \<in> set (treatments_of (db w1) (p_id p))"
      using Cons.prems(3) by (simp add: same_tables_treatments_of [OF f1])
    then have "set (za_due (db w1) nowSP todayKey t) \<subseteq> set (alert_log (db w2))"
      using Cons.IH [OF lp [unfolded r2] that] by simp
    then show ?thesis by (simp add: same_tables_za_due [OF f1])
  qed
  show ?case
  proof (cases "p = x")
    case True
    then show ?thesis using here Cons.prems(3) by (simp add: ts_def w')
  next
    case False
    then show ?thesis using later Cons.prems(2) by (simp add: w')
  qed
qed


section \<open>A second run after a completed run\<close>









text \<open>A completed run has logged every row its treatments asked for.\<close>

lemma set_treatments_of:
  "set (treatments_of d petId) = {t \<in> set (treatments d). t_pet_id t = petId}"
  by (auto simp: treatments_of_def)

lemma za_main_done:
  assumes r: "za_main env nowSP nowMs w = (Inr n, w')"
    and ps: "getOwnerPets env w = Inr ps" and p: "p \<in> set ps"
    and t: "t \<in> set (treatments (db w))" "t_pet_id t = p_id p"
  shows "set (za_due (db w) nowSP (isoDateSP env nowSP nowMs) t) \<subseteq> set (alert_log (db w'))"
proof -
  have ne: "length ps \<noteq> 0" using p by auto
  have loop: "za_pets_loop env nowSP (isoDateSP env nowSP nowMs) ps w = (Inr n, w')"
    using r ps ne by (simp add: za_main_def Let_def)
  have "t \<in> set (treatments_of (db w) (p_id p))"
    using t by (simp add: set_treatments_of)
  from za_pets_loop_done [OF loop p this] show ?thesis .
qed

lemma sa_main_done:
  assumes h: "honest env" and r: "sa_main env nowSP w = (Inr u, w')"
    and z: "select_pets_by_name env (db w) ''Zeus'' = Inr (z # zs)"
    and t: "t \<in> set (treatments (db w))" "t_pet_id t = p_id z"
  shows "set (sa_due (db w) nowSP (toISODate nowSP) t) \<subseteq> set (alert_log (db w'))"
proof -
  from r z obtain ts where ts: "select_treatments env (db w) (p_id z) = Inr ts"
    by (auto simp: sa_main_def Let_def split: sum.splits)
  then have mem: "t \<in> set ts"
    using t by (auto simp: select_treatments_def split: option.splits)
  have loop: "sa_loop env z nowSP (toISODate nowSP) ts w = (Inr u, w')"
    using r z ts by (simp add: sa_main_def Let_def)
  from sa_loop_done [OF h loop mem] show ?thesis .
qed

section \<open>The log rows that a run adds\<close>

text \<open>A run appends to the alert log, and only rows its treatments ask for.\<close>

lemma appended_refl: "appended w w rows"
  by (simp add: appended_def)

lemma appended_trans:
  "appended w w1 A \<Longrightarrow> appended w1 w2 B \<Longrightarrow> A \<subseteq> C \<Longrightarrow> B \<subseteq> C \<Longrightarrow> appended w w2 C"
  unfolding appended_def by (elim exE conjE, rule_tac x = "new @ newa" in exI) auto

lemma appended_mono: "appended w w' A \<Longrightarrow> A \<subseteq> B \<Longrightarrow> appended w w' B"
  unfolding appended_def by blast

lemma za_notify_rows: "za_notify env a b c msg w = (r, w') \<Longrightarrow> appended w w' {log_row a b c}"
  by (auto simp: za_notify_eq appended_def split: option.splits if_splits)

lemma sa_notify_rows: "sa_notify env a b c msg w = (r, w') \<Longrightarrow> appended w w' {log_row a b c}"
  by (auto simp: sa_notify_eq appended_def split: option.splits if_splits)

lemma sa_treatment_rows:
  "sa_treatment env zeus nowSP todayISO t w = (r, w') \<Longrightarrow>
   appended w w' (set (sa_due (db w) nowSP todayISO t))"
  by (cases rule: sa_treatment_cases [where env = env and t = t and w = w and nowSP = nowSP
        and todayISO = todayISO and zeus = zeus])
     (auto simp: appended_refl dest: sa_notify_rows)

lemma za_blocks_rows:
  assumes "za_blocks env pet nowSP todayKey t a w = (r, w')"
  shows "appended w w' (set (za_due_rows nowSP todayKey t a))"
proof -
  define days where "days = za_days nowSP t a"
  define nextDate where "nextDate = za_calcNextDate a (t_interval_value t) (t_interval_unit t)"
  define U where "U = (if days \<in> set (za_alertsDays t) then
                 za_notify env (t_id t) (''upcoming_'' @ show_int days) todayKey
                   (za_upcoming_text env pet t days a nextDate) w
               else (Inr 0, w))"
  obtain r1 w1 where U: "U = (r1, w1)" by (cases U)
  have f1: "appended w w1 (set (za_due_rows nowSP todayKey t a))"
    using U
    by (auto simp: U_def appended_refl za_due_rows_def Let_def days_def [symmetric]
        split: if_splits dest!: za_notify_rows elim: appended_mono)
  show ?thesis
  proof (cases r1)
    case (Inl e)
    then have "w' = w1"
      using assms U
      by (simp add: za_blocks_def Let_def days_def [symmetric] nextDate_def [symmetric]
          U_def [symmetric])
    then show ?thesis using f1 by simp
  next
    case (Inr n1)
    define V where "V = (if days < 0 then
                      za_notify env (t_id t) ''overdue_daily'' todayKey
                        (za_overdue_text env pet t days a nextDate) w1
                    else (Inr 0, w1))"
    obtain r2 w2 where V: "V = (r2, w2)" by (cases V)
    have f2: "appended w1 w2 (set (za_due_rows nowSP todayKey t a))"
      using V
      by (auto simp: V_def appended_refl za_due_rows_def Let_def days_def [symmetric]
          split: if_splits dest!: za_notify_rows elim: appended_mono)
    have "w' = w2"
      using assms U Inr V
      by (simp add: za_blocks_def Let_def days_def [symmetric] nextDate_def [symmetric]
          U_def [symmetric] V_def [symmetric] split: sum.splits)
    then show ?thesis using appended_trans [OF f1 f2] by simp
  qed
qed

lemma za_treatment_rows:
  "za_treatment env pet nowSP todayKey t w = (r, w') \<Longrightarrow>
   appended w w' (set (za_due (db w) nowSP todayKey t))"
  by (auto simp: za_treatment_eq za_due_def appended_refl split: option.splits list.splits
      dest: za_blocks_rows)

lemma sa_loop_rows:
  "sa_loop env zeus nowSP todayISO ts w = (r, w') \<Longrightarrow>
   appended w w' (\<Union>t \<in> set ts. set (sa_due (db w) nowSP todayISO t))"
proof (induction ts arbitrary: w w')
  case Nil
  then show ?case by (simp add: appended_refl)
next
  case (Cons x ts)
  obtain r1 w1 where st: "sa_treatment env zeus nowSP todayISO x w = (r1, w1)"
    by (cases "sa_treatment env zeus nowSP todayISO x w")
  have a1: "appended w w1 (set (sa_due (db w) nowSP todayISO x))"
    by (rule sa_treatment_rows [OF st])
  have f1: "same_tables w w1" by (rule sa_treatment_frame [OF st])
  show ?case
  proof (cases r1)
    case (Inl e)
    then have "w' = w1" using Cons.prems st by simp
    then show ?thesis using a1 by (auto elim: appended_mono)
  next
    case (Inr u)
    then have "sa_loop env zeus nowSP todayISO ts w1 = (r, w')" using Cons.prems st by simp
    then have "appended w1 w' (\<Union>t \<in> set ts. set (sa_due (db w) nowSP todayISO t))"
      using Cons.IH [of w1 w'] by (simp add: same_tables_sa_due [OF f1])
    with a1 show ?thesis by (rule appended_trans) auto
  qed
qed

lemma za_treatments_loop_rows:
  "za_treatments_loop env pet nowSP todayKey ts w = (r, w') \<Longrightarrow>
   appended w w' (\<Union>t \<in> set ts. set (za_due (db w) nowSP todayKey t))"
proof (induction ts arbitrary: w r w')
  case Nil
  then show ?case by (simp add: appended_refl)
next
  case (Cons x ts)
  obtain r1 w1 where st: "za_treatment env pet nowSP todayKey x w = (r1, w1)"
    by (cases "za_treatment env pet nowSP todayKey x w")
  have a1: "appended w w1 (set (za_due (db w) nowSP todayKey x))"
    by (rule za_treatment_rows [OF st])
  have f1: "same_tables w w1" by (rule za_treatment_frame [OF st])
  show ?case
  proof (cases r1)
    case (Inl e)
    then have "w' = w1" using Cons.prems st by simp
    then show ?thesis using a1 by (auto elim: appended_mono)
  next
    case (Inr n)
    obtain r2 w2 where lp: "za_treatments_loop env pet nowSP todayKey ts w1 = (r2, w2)"
      by (cases "za_treatments_loop env pet nowSP todayKey ts w1")
    have w': "w' = w2" using Cons.prems st Inr lp by (cases r2) simp_all
    have "appended w1 w2 (\<Union>t \<in> set ts. set (za_due (db w) nowSP todayKey t))"
      using Cons.IH [OF lp] by (simp add: same_tables_za_due [OF f1])
    with a1 show ?thesis unfolding w' by (rule appended_trans) auto
  qed
qed

lemma za_pets_loop_rows:
  "za_pets_loop env nowSP todayKey ps w = (r, w') \<Longrightarrow>
   appended w w' (\<Union>t \<in> set (treatments (db w)). set (za_due (db w) nowSP todayKey t))"
proof (induction ps arbitrary: w r w')
  case Nil
  then show ?case by (simp add: appended_refl)
next
  case (Cons p ps)
  show ?case
  proof (cases "store_fault env (SelectTreatments (p_id p))")
    case (Some e)
    then have "w' = w" using Cons.prems by (simp add: getTreatmentsByPet_eq)
    then show ?thesis by (simp add: appended_refl)
  next
    case None
    define ts where "ts = treatments_of (db w) (p_id p)"
    have sub: "set ts \<subseteq> set (treatments (db w))" by (auto simp: ts_def treatments_of_def)
    obtain r1 w1 where tl: "za_treatments_loop env p nowSP todayKey ts w = (r1, w1)"
      by (cases "za_treatments_loop env p nowSP todayKey ts w")
    have f1: "same_tables w w1" by (rule za_treatments_loop_frame [OF tl])
    have a1: "appended w w1 (\<Union>t \<in> set (treatments (db w)). set (za_due (db w) nowSP todayKey t))"
      using za_treatments_loop_rows [OF tl] sub by (auto elim!: appended_mono)
    show ?thesis
    proof (cases r1)
      case (Inl e)
      then have "w' = w1"
        using Cons.prems None tl by (simp add: getTreatmentsByPet_eq ts_def [symmetric])
      then show ?thesis using a1 by simp
    next
      case (Inr n)
      obtain r2 w2 where lp: "za_pets_loop env nowSP todayKey ps w1 = (r2, w2)"
        by (cases "za_pets_loop env nowSP todayKey ps w1")
      have w': "w' = w2"
        using Cons.prems None tl Inr lp
        by (cases r2) (simp_all add: getTreatmentsByPet_eq ts_def [symmetric])
      have tr: "treatments (db w1) = treatments (db w)" using f1 by (simp add: same_tables_def)
      have "appended w1 w2 (\<Union>t \<in> set (treatments (db w)). set (za_due (db w) nowSP todayKey t))"
        using Cons.IH [OF lp] by (simp add: same_tables_za_due [OF f1] tr)
      with a1 show ?thesis unfolding w' by (rule appended_trans) auto
    qed
  qed
qed

lemma za_main_rows:
  "appended w (snd (za_main env nowSP nowMs w))
     (\<Union>t \<in> set (treatments (db w)). set (za_due (db w) nowSP (isoDateSP env nowSP nowMs) t))"
proof (cases "getOwnerPets env w")
  case (Inl e)
  then show ?thesis by (simp add: za_main_def Let_def appended_refl)
next
  case (Inr ps)
  show ?thesis
  proof (cases "length ps = 0")
    case True
    then show ?thesis using Inr by (simp add: za_main_def Let_def appended_refl)
  next
    case False
    obtain r w' where lp: "za_pets_loop env nowSP (isoDateSP env nowSP nowMs) ps w = (r, w')"
      by (cases "za_pets_loop env nowSP (isoDateSP env nowSP nowMs) ps w")
    then have "snd (za_main env nowSP nowMs w) = w'"
      using Inr False by (simp add: za_main_def Let_def)
    then show ?thesis using za_pets_loop_rows [OF lp] by simp
  qed
qed

lemma sa_main_rows:
  "appended w (snd (sa_main env nowSP w))
     (\<Union>t \<in> set (treatments (db w)). set (sa_due (db w) nowSP (toISODate nowSP) t))"
proof (cases "select_pets_by_name env (db w) ''Zeus''")
  case (Inl e)
  then show ?thesis by (simp add: sa_main_def Let_def appended_refl)
next
  case (Inr ps)
  show ?thesis
  proof (cases ps)
    case Nil
    then show ?thesis using Inr by (simp add: sa_main_def Let_def appended_refl)
  next
    case (Cons zeus rest)
    show ?thesis
    proof (cases "select_treatments env (db w) (p_id zeus)")
      case (Inl e)
      then show ?thesis using Inr Cons by (simp add: sa_main_def Let_def appended_refl)
    next
      case inr: (Inr ts)
      then have sub: "set ts \<subseteq> set (treatments (db w))"
        by (auto simp: select_treatments_def split: option.splits)
      obtain r w' where lp: "sa_loop env zeus nowSP (toISODate nowSP) ts w = (r, w')"
        by (cases "sa_loop env zeus nowSP (toISODate nowSP) ts w")
      then have "snd (sa_main env nowSP w) = w'"
        using Inr Cons inr by (simp add: sa_main_def Let_def)
      then show ?thesis using sa_loop_rows [OF lp] sub by (auto elim!: appended_mono)
    qed
  qed
qed

lemma za_due_row:
  assumes "r \<in> set (za_due d nowSP todayKey t)"
  shows "\<exists>a rest. last_applied d (t_id t) = a # rest \<and> al_treatment_id r = t_id t
           \<and> al_alert_date r = todayKey
           \<and> (al_alert_type r = ''upcoming_'' @ show_int (za_days nowSP t a)
                \<and> za_days nowSP t a \<in> set (za_alertsDays t)
              \<or> al_alert_type r = ''overdue_daily'' \<and> za_days nowSP t a < 0)"
proof (cases "last_applied d (t_id t)")
  case Nil
  then show ?thesis using assms by (simp add: za_due_def)
next
  case (Cons a rest)
  then show ?thesis
    using assms by (auto simp: za_due_def za_due_rows_def Let_def log_row_def split: if_splits)
qed

lemma sa_due_row:
  assumes "r \<in> set (sa_due d nowSP todayISO t)"
  shows "\<exists>a rest. last_applied d (t_id t) = a # rest \<and> al_treatment_id r = t_id t
           \<and> al_alert_date r = todayISO
           \<and> (al_alert_type r = ''due_in_'' @ show_int (sa_days nowSP t a)
                \<and> 0 \<le> sa_days nowSP t a \<and> sa_days nowSP t a \<in> set (sa_alerts t)
              \<or> al_alert_type r = ''overdue_daily'' \<and> sa_days nowSP t a < 0)"
proof (cases "last_applied d (t_id t)")
  case Nil
  then show ?thesis using assms by (simp add: sa_due_def)
next
  case (Cons a rest)
  then show ?thesis
    using assms by (auto simp: sa_due_def sa_days_def Let_def log_row_def split: if_splits)
qed

section \<open>Properties of the Schedule Calculator\<close>

text \<open>
  Claim C6. For every integer number of days, \<^verbatim>\<open>statusFromDays\<close> answers overdue exactly
  below zero, upcoming exactly from 0 to 60 inclusive, and later exactly above 60; the
  four boundary values -1, 0, 60 and 61 are classified overdue, upcoming, upcoming and
  later.
\<close>

theorem statusFromDays_classification:
  "(statusFromDays days = Overdue \<longleftrightarrow> days < 0)
   \<and> (statusFromDays days = Upcoming \<longleftrightarrow> 0 \<le> days \<and> days \<le> 60)
   \<and> (statusFromDays days = Later \<longleftrightarrow> 60 < days)
   \<and> statusFromDays (- 1) = Overdue
   \<and> statusFromDays 0 = Upcoming
   \<and> statusFromDays 60 = Upcoming
   \<and> statusFromDays 61 = Later"
  by (simp add: statusFromDays_def)

text \<open>
  Claim C7. For every date, the date \<^verbatim>\<open>adjustWeekend\<close> returns is neither a Saturday nor
  a Sunday and lies 0, 1 or 2 calendar days after the input: two days after a Saturday,
  one day after a Sunday, and the input itself on any other weekday.
\<close>

theorem adjustWeekend_weekday:
  "getDay (adjustWeekend d) \<noteq> 6
   \<and> getDay (adjustWeekend d) \<noteq> 0
   \<and> 0 \<le> differenceInCalendarDays (adjustWeekend d) d
   \<and> differenceInCalendarDays (adjustWeekend d) d \<le> 2
   \<and> adjustWeekend d =
       (if getDay d = 6 then addDays d 2 else if getDay d = 0 then addDays d 1 else d)"
proof -
  have sat: "getDay d = 6 \<Longrightarrow> getDay (d + 2) = 1"
    unfolding getDay_def by presburger
  have sun: "getDay d = 0 \<Longrightarrow> getDay (d + 1) = 1"
    unfolding getDay_def by presburger
  show ?thesis
    using sat sun
    by (simp add: adjustWeekend_def Let_def addDays_def differenceInCalendarDays_def)
qed

text \<open>
  Claim C10. \<^verbatim>\<open>adjustWeekend\<close> is idempotent: a second adjustment changes nothing. Its
  result is always a weekday, Monday to Friday: a Saturday or a Sunday is moved to a
  Monday and any other day is returned as it is. So the date \<^verbatim>\<open>calcNextDate\<close> returns
  is left unchanged by a further adjustment.
\<close>

theorem adjustWeekend_idempotent:
  "adjustWeekend (adjustWeekend d) = adjustWeekend d
   \<and> 1 \<le> getDay (adjustWeekend d) \<and> getDay (adjustWeekend d) \<le> 5
   \<and> (if getDay d = 6 \<or> getDay d = 0 then getDay (adjustWeekend d) = 1
       else adjustWeekend d = d)
   \<and> adjustWeekend (calcNextDate lastApplied v unit) = calcNextDate lastApplied v unit"
proof -
  have sat: "getDay x = 6 \<Longrightarrow> getDay (x + 2) = 1" for x
    unfolding getDay_def by presburger
  have sun: "getDay x = 0 \<Longrightarrow> getDay (x + 1) = 1" for x
    unfolding getDay_def by presburger
  have range: "0 \<le> getDay x \<and> getDay x \<le> 6" for x
    unfolding getDay_def by simp
  have idem: "adjustWeekend (adjustWeekend x) = adjustWeekend x" for x
    using sat [of x] sun [of x] by (simp add: adjustWeekend_def Let_def addDays_def)
  have week: "1 \<le> getDay (adjustWeekend x) \<and> getDay (adjustWeekend x) \<le> 5" for x
    using sat [of x] sun [of x] range [of x]
    by (auto simp: adjustWeekend_def Let_def addDays_def)
  have shape: "if getDay d = 6 \<or> getDay d = 0 then getDay (adjustWeekend d) = 1
       else adjustWeekend d = d"
    using sat [of d] sun [of d] by (auto simp: adjustWeekend_def Let_def addDays_def)
  show ?thesis
    using idem [of d] week [of d] shape idem [of "addInterval lastApplied v unit"]
    by (simp add: calcNextDate_def)
qed

text \<open>
  Claim C8. With the unit "days" \<^verbatim>\<open>addInterval\<close> returns the date that many calendar
  days later. With the unit "months" it returns the date in the month that many calendar
  months later, on the same day of the month or, when that month is shorter, on its last
  day; one month after January 31 is the last day of February: the 29th in 2024, the 28th
  in 2023.
\<close>

theorem addInterval_calendar:
  "differenceInCalendarDays (addInterval d v ''days'') d = v
   \<and> getFullYear (addInterval d v ''months'') = getFullYear d + (getMonth d + v) div 12
   \<and> getMonth (addInterval d v ''months'') = (getMonth d + v) mod 12
   \<and> getDate (addInterval d v ''months'') =
       min (getDate d)
         (DaysInMonth (getFullYear d + (getMonth d + v) div 12) ((getMonth d + v) mod 12))
   \<and> addInterval (MakeDay y 0 31) 1 ''months'' = MakeDay y 1 (DaysInMonth y 1)
   \<and> DaysInMonth y 1 = 28 + InLeapYear y
   \<and> addInterval (MakeDay 2024 0 31) 1 ''months'' = MakeDay 2024 1 29
   \<and> addInterval (MakeDay 2023 0 31) 1 ''months'' = MakeDay 2023 1 28"
proof -
  have days: "differenceInCalendarDays (addInterval d v ''days'') d = v"
    by (simp add: addInterval_def addDays_def differenceInCalendarDays_def)
  have months: "addInterval x n ''months'' = addMonths x n" for x n
    by (simp add: addInterval_def)
  have dim: "DaysInMonth z 1 = 28 + InLeapYear z" for z
    by (simp add: DaysInMonth_def month_start_simps)
  have jan: "addMonths (MakeDay z 0 31) 1 = MakeDay z 1 (DaysInMonth z 1)" for z
  proof -
    have c: "getFullYear (MakeDay z 0 31) = z \<and> getMonth (MakeDay z 0 31) = 0
        \<and> getDate (MakeDay z 0 31) = 31"
      by (rule civil_of_MakeDay) (simp_all add: DaysInMonth_def month_start_simps)
    have "MakeDay (getFullYear (addMonths (MakeDay z 0 31) 1))
        (getMonth (addMonths (MakeDay z 0 31) 1)) (getDate (addMonths (MakeDay z 0 31) 1)) =
        addMonths (MakeDay z 0 31) 1"
      by (rule MakeDay_civil)
    then show ?thesis
      using addMonths_civil [of "MakeDay z 0 31" 1] c InLeapYear_cases [of z]
      by (auto simp: dim)
  qed
  have l24: "InLeapYear 2024 = 1" and l23: "InLeapYear 2023 = 0"
    by (simp_all add: InLeapYear_def DaysInYear_def)
  show ?thesis
    using days addMonths_civil [of d v] jan [of y] jan [of 2024] jan [of 2023] dim [of y]
    by (simp add: months dim l24 l23)
qed

section \<open>Properties of the alert runners\<close>

text \<open>
  Claim C1, at an input where scripts/send-alerts.js departs from it. The treatment is
  5 days overdue, the alert log is empty and the channel answers 502. The run raises the
  delivery error, yet the log now holds the row (t1, overdue_daily, 2024-07-06): the
  script inserts the row before it sends. A second run on the same day with a working
  channel finds the row and sends nothing, so the alert is never retried that day.
\<close>

theorem sa_failed_delivery_keeps_claim:
  "sa_main channel_down (MakeDay 2024 6 6) world0 =
     (Inl (TelegramFailure 502 ''Bad Gateway''), world_claimed)
   \<and> alert_log (db world0) = []
   \<and> alert_log (db world_claimed) = [log_row ''t1'' ''overdue_daily'' ''2024-07-06'']
   \<and> sa_main channel_up (MakeDay 2024 6 6) world_claimed = (Inr (), world_claimed)"
proof -
  have "sa_main channel_down (MakeDay 2024 6 6) world0 =
      (Inl (TelegramFailure 502 ''Bad Gateway''), world_claimed)"
    by code_simp
  moreover have "sa_main channel_up (MakeDay 2024 6 6) world_claimed = (Inr (), world_claimed)"
    by code_simp
  ultimately show ?thesis
    by (simp add: world0_def world_claimed_def store_with_def)
qed

text \<open>The runner of part_000 sends before it inserts: an alert whose delivery fails
  leaves the whole state, the alert log included, as it was, and the next run on the
  same day sends it.\<close>

lemma za_failed_delivery_leaves_log:
  "\<not> ok (telegram env msg) \<Longrightarrow> snd (za_notify env treatmentId alertType todayKey msg w) = w"
  by (simp add: za_notify_eq split: option.splits)

lemma za_failed_delivery_retried:
  "za_main channel_down (MakeDay 2024 6 6) 0 world0 =
     (Inl (TelegramFailure 502 ''Bad Gateway''), world0)
   \<and> fst (za_main channel_up (MakeDay 2024 6 6) 0 world0) = Inr 1
   \<and> alert_log (db (snd (za_main channel_up (MakeDay 2024 6 6) 0 world0))) =
       [log_row ''t1'' ''overdue_daily'' ''2024-07-06'']
   \<and> length (outbox (snd (za_main channel_up (MakeDay 2024 6 6) 0 world0))) = 1"
  by code_simp

text \<open>
  Claim C2, at an input where scripts/send-alerts.js departs from it. With
  \<^verbatim>\<open>alerts_days = []\<close> the script keeps the empty list, so 30 days before the due date it
  sends nothing and logs nothing, while the same treatment configured with [30, 15, 5]
  gets its alert.
\<close>

theorem sa_empty_thresholds_no_alert:
  "sa_alerts (vaccine\<lparr>t_alerts_days := Some []\<rparr>) = []
   \<and> sa_main channel_up (MakeDay 2024 5 1) world_empty_thresholds =
       (Inr (), world_empty_thresholds)
   \<and> map al_alert_type
       (alert_log (db (snd (sa_main channel_up (MakeDay 2024 5 1) world_explicit_thresholds)))) =
       [''due_in_30'']
   \<and> length (outbox (snd (sa_main channel_up (MakeDay 2024 5 1) world_explicit_thresholds))) = 1"
  by code_simp

text \<open>What holds of the thresholds in general: both runners take [30, 15, 5] for an
  absent list and a non-empty list as it is; part_000 also takes [30, 15, 5] for the
  empty list. A treatment without a list is evaluated exactly as one with [30, 15, 5].\<close>

lemma thresholds_resolved:
  "sa_alerts (t\<lparr>t_alerts_days := None\<rparr>) = [30, 15, 5]
   \<and> za_alertsDays (t\<lparr>t_alerts_days := None\<rparr>) = [30, 15, 5]
   \<and> za_alertsDays (t\<lparr>t_alerts_days := Some []\<rparr>) = [30, 15, 5]
   \<and> za_alertsDays (t\<lparr>t_alerts_days := Some (x # xs)\<rparr>) = x # xs
   \<and> sa_alerts (t\<lparr>t_alerts_days := Some xs\<rparr>) = xs"
  by (simp add: sa_alerts_def za_alertsDays_def)

lemma absent_thresholds_as_default:
  "sa_treatment env p nowSP todayISO (t\<lparr>t_alerts_days := None\<rparr>) w =
     sa_treatment env p nowSP todayISO (t\<lparr>t_alerts_days := Some [30, 15, 5]\<rparr>) w
   \<and> za_treatment env p nowSP todayKey (t\<lparr>t_alerts_days := None\<rparr>) w =
     za_treatment env p nowSP todayKey (t\<lparr>t_alerts_days := Some [30, 15, 5]\<rparr>) w
   \<and> za_treatment env p nowSP todayKey (t\<lparr>t_alerts_days := Some []\<rparr>) w =
     za_treatment env p nowSP todayKey (t\<lparr>t_alerts_days := Some [30, 15, 5]\<rparr>) w"
proof -
  have f: "t_id (t\<lparr>t_alerts_days := x\<rparr>) = t_id t"
    "t_name (t\<lparr>t_alerts_days := x\<rparr>) = t_name t"
    "t_category (t\<lparr>t_alerts_days := x\<rparr>) = t_category t"
    "t_interval_value (t\<lparr>t_alerts_days := x\<rparr>) = t_interval_value t"
    "t_interval_unit (t\<lparr>t_alerts_days := x\<rparr>) = t_interval_unit t" for x
    by simp_all
  have g: "sa_alerts (t\<lparr>t_alerts_days := None\<rparr>) = [30, 15, 5]"
    "sa_alerts (t\<lparr>t_alerts_days := Some [30, 15, 5]\<rparr>) = [30, 15, 5]"
    "za_alertsDays (t\<lparr>t_alerts_days := None\<rparr>) = [30, 15, 5]"
    "za_alertsDays (t\<lparr>t_alerts_days := Some []\<rparr>) = [30, 15, 5]"
    "za_alertsDays (t\<lparr>t_alerts_days := Some [30, 15, 5]\<rparr>) = [30, 15, 5]"
    by (simp_all add: sa_alerts_def za_alertsDays_def)
  show ?thesis
    unfolding sa_treatment_def za_treatment_def sa_overdue_text_def sa_due_text_def
      za_upcoming_text_def za_overdue_text_def f g
    by simp
qed

text \<open>
  Claim C3 as stated fails on scripts/send-alerts.js: 30 days before the due date it
  records the alert type \<^verbatim>\<open>due_in_30\<close>, which is neither \<^verbatim>\<open>overdue_daily\<close> nor of the
  form \<^verbatim>\<open>upcoming_<N>\<close>.
\<close>

theorem sa_records_due_in:
  "map al_alert_type (alert_log (db (snd (sa_main channel_up (MakeDay 2024 5 1) world0)))) =
     [''due_in_30'']
   \<and> ''due_in_30'' \<noteq> ''overdue_daily''
   \<and> take 9 ''due_in_30'' \<noteq> ''upcoming_''"
  by code_simp

text \<open>
  Claim C3, amended. A run only appends to the alert log. Every row it appends belongs
  to a treatment with a recorded application, carries the date key of the run
  (\<^verbatim>\<open>todayISO\<close>, \<^verbatim>\<open>todayKey\<close>), and has one of two alert types. In part_000 the type
  is \<^verbatim>\<open>upcoming_<N>\<close> with N the day offset, when N is one of the treatment's thresholds
  (a negative threshold included: both types are then recorded), or \<^verbatim>\<open>overdue_daily\<close>,
  when the day offset is negative. In scripts/send-alerts.js it is \<^verbatim>\<open>overdue_daily\<close>
  when the day offset is negative and otherwise \<^verbatim>\<open>due_in_<N>\<close> with N the day offset,
  when N is one of the thresholds. Conversely, when a run has completed, each of these
  rows is in the log for every treatment of a visited pet that has a recorded
  application; for scripts/send-alerts.js this rests on the store reporting code 23505
  only for a triple already logged.
\<close>

theorem alert_types_recorded:
  "(\<exists>new. alert_log (db (snd (za_main env nowSP nowMs w))) = alert_log (db w) @ new
      \<and> list_all (\<lambda>r. \<exists>t a rest. t \<in> set (treatments (db w)) \<and> al_treatment_id r = t_id t
            \<and> al_alert_date r = isoDateSP env nowSP nowMs
            \<and> last_applied (db w) (t_id t) = a # rest
            \<and> (al_alert_type r = ''upcoming_'' @ show_int (za_days nowSP t a)
                 \<and> za_days nowSP t a \<in> set (za_alertsDays t)
               \<or> al_alert_type r = ''overdue_daily'' \<and> za_days nowSP t a < 0)) new)
   \<and> (\<exists>new. alert_log (db (snd (sa_main env nowSP w))) = alert_log (db w) @ new
      \<and> list_all (\<lambda>r. \<exists>t a rest. t \<in> set (treatments (db w)) \<and> al_treatment_id r = t_id t
            \<and> al_alert_date r = toISODate nowSP \<and> last_applied (db w) (t_id t) = a # rest
            \<and> (al_alert_type r = ''due_in_'' @ show_int (sa_days nowSP t a)
                 \<and> 0 \<le> sa_days nowSP t a \<and> sa_days nowSP t a \<in> set (sa_alerts t)
               \<or> al_alert_type r = ''overdue_daily'' \<and> sa_days nowSP t a < 0)) new)
   \<and> (fst (za_main env nowSP nowMs w) = Inr n \<and> getOwnerPets env w = Inr ps \<and> p \<in> set ps
        \<and> t \<in> set (treatments (db w)) \<and> t_pet_id t = p_id p
        \<and> last_applied (db w) (t_id t) = a # rest
      \<longrightarrow> (za_days nowSP t a \<in> set (za_alertsDays t)
            \<longrightarrow> log_row (t_id t) (''upcoming_'' @ show_int (za_days nowSP t a))
                  (isoDateSP env nowSP nowMs)
                \<in> set (alert_log (db (snd (za_main env nowSP nowMs w)))))
          \<and> (za_days nowSP t a < 0
            \<longrightarrow> log_row (t_id t) ''overdue_daily'' (isoDateSP env nowSP nowMs)
                \<in> set (alert_log (db (snd (za_main env nowSP nowMs w))))))
   \<and> (honest env \<and> fst (sa_main env nowSP w) = Inr ()
        \<and> select_pets_by_name env (db w) ''Zeus'' = Inr (z # zs)
        \<and> t \<in> set (treatments (db w)) \<and> t_pet_id t = p_id z
        \<and> last_applied (db w) (t_id t) = a # rest
      \<longrightarrow> (sa_days nowSP t a < 0
            \<longrightarrow> log_row (t_id t) ''overdue_daily'' (toISODate nowSP)
                \<in> set (alert_log (db (snd (sa_main env nowSP w)))))
          \<and> (0 \<le> sa_days nowSP t a \<and> sa_days nowSP t a \<in> set (sa_alerts t)
            \<longrightarrow> log_row (t_id t) (''due_in_'' @ show_int (sa_days nowSP t a)) (toISODate nowSP)
                \<in> set (alert_log (db (snd (sa_main env nowSP w))))))"
proof (intro conjI)
  from za_main_rows [of w env nowSP nowMs] obtain new
    where n: "alert_log (db (snd (za_main env nowSP nowMs w))) = alert_log (db w) @ new"
      and s: "set new \<subseteq> (\<Union>t \<in> set (treatments (db w)).
                 set (za_due (db w) nowSP (isoDateSP env nowSP nowMs) t))"
    unfolding appended_def by blast
  have "list_all (\<lambda>r. \<exists>t a rest. t \<in> set (treatments (db w)) \<and> al_treatment_id r = t_id t
            \<and> al_alert_date r = isoDateSP env nowSP nowMs
            \<and> last_applied (db w) (t_id t) = a # rest
            \<and> (al_alert_type r = ''upcoming_'' @ show_int (za_days nowSP t a)
                 \<and> za_days nowSP t a \<in> set (za_alertsDays t)
               \<or> al_alert_type r = ''overdue_daily'' \<and> za_days nowSP t a < 0)) new"
    unfolding list_all_iff
  proof
    fix r assume "r \<in> set new"
    with s obtain t where t: "t \<in> set (treatments (db w))"
      and r: "r \<in> set (za_due (db w) nowSP (isoDateSP env nowSP nowMs) t)" by blast
    from za_due_row [OF r] t
    show "\<exists>t a rest. t \<in> set (treatments (db w)) \<and> al_treatment_id r = t_id t
            \<and> al_alert_date r = isoDateSP env nowSP nowMs
            \<and> last_applied (db w) (t_id t) = a # rest
            \<and> (al_alert_type r = ''upcoming_'' @ show_int (za_days nowSP t a)
                 \<and> za_days nowSP t a \<in> set (za_alertsDays t)
               \<or> al_alert_type r = ''overdue_daily'' \<and> za_days nowSP t a < 0)"
      by blast
  qed
  with n show "\<exists>new. alert_log (db (snd (za_main env nowSP nowMs w))) = alert_log (db w) @ new
      \<and> list_all (\<lambda>r. \<exists>t a rest. t \<in> set (treatments (db w)) \<and> al_treatment_id r = t_id t
            \<and> al_alert_date r = isoDateSP env nowSP nowMs
            \<and> last_applied (db w) (t_id t) = a # rest
            \<and> (al_alert_type r = ''upcoming_'' @ show_int (za_days nowSP t a)
                 \<and> za_days nowSP t a \<in> set (za_alertsDays t)
               \<or> al_alert_type r = ''overdue_daily'' \<and> za_days nowSP t a < 0)) new"
    by blast
next
  from sa_main_rows [of w env nowSP] obtain new
    where n: "alert_log (db (snd (sa_main env nowSP w))) = alert_log (db w) @ new"
      and s: "set new \<subseteq> (\<Union>t \<in> set (treatments (db w)).
                 set (sa_due (db w) nowSP (toISODate nowSP) t))"
    unfolding appended_def by blast
  have "list_all (\<lambda>r. \<exists>t a rest. t \<in> set (treatments (db w)) \<and> al_treatment_id r = t_id t
            \<and> al_alert_date r = toISODate nowSP \<and> last_applied (db w) (t_id t) = a # rest
            \<and> (al_alert_type r = ''due_in_'' @ show_int (sa_days nowSP t a)
                 \<and> 0 \<le> sa_days nowSP t a \<and> sa_days nowSP t a \<in> set (sa_alerts t)
               \<or> al_alert_type r = ''overdue_daily'' \<and> sa_days nowSP t a < 0)) new"
    unfolding list_all_iff
  proof
    fix r assume "r \<in> set new"
    with s obtain t where t: "t \<in> set (treatments (db w))"
      and r: "r \<in> set (sa_due (db w) nowSP (toISODate nowSP) t)" by blast
    from sa_due_row [OF r] t
    show "\<exists>t a rest. t \<in> set (treatments (db w)) \<and> al_treatment_id r = t_id t
            \<and> al_alert_date r = toISODate nowSP \<and> last_applied (db w) (t_id t) = a # rest
            \<and> (al_alert_type r = ''due_in_'' @ show_int (sa_days nowSP t a)
                 \<and> 0 \<le> sa_days nowSP t a \<and> sa_days nowSP t a \<in> set (sa_alerts t)
               \<or> al_alert_type r = ''overdue_daily'' \<and> sa_days nowSP t a < 0)"
      by blast
  qed
  with n show "\<exists>new. alert_log (db (snd (sa_main env nowSP w))) = alert_log (db w) @ new
      \<and> list_all (\<lambda>r. \<exists>t a rest. t \<in> set (treatments (db w)) \<and> al_treatment_id r = t_id t
            \<and> al_alert_date r = toISODate nowSP \<and> last_applied (db w) (t_id t) = a # rest
            \<and> (al_alert_type r = ''due_in_'' @ show_int (sa_days nowSP t a)
                 \<and> 0 \<le> sa_days nowSP t a \<and> sa_days nowSP t a \<in> set (sa_alerts t)
               \<or> al_alert_type r = ''overdue_daily'' \<and> sa_days nowSP t a < 0)) new"
    by blast
next
  show "fst (za_main env nowSP nowMs w) = Inr n \<and> getOwnerPets env w = Inr ps \<and> p \<in> set ps
        \<and> t \<in> set (treatments (db w)) \<and> t_pet_id t = p_id p
        \<and> last_applied (db w) (t_id t) = a # rest
      \<longrightarrow> (za_days nowSP t a \<in> set (za_alertsDays t)
            \<longrightarrow> log_row (t_id t) (''upcoming_'' @ show_int (za_days nowSP t a))
                  (isoDateSP env nowSP nowMs)
                \<in> set (alert_log (db (snd (za_main env nowSP nowMs w)))))
          \<and> (za_days nowSP t a < 0
            \<longrightarrow> log_row (t_id t) ''overdue_daily'' (isoDateSP env nowSP nowMs)
                \<in> set (alert_log (db (snd (za_main env nowSP nowMs w)))))"
  proof (intro impI, elim conjE)
    assume r: "fst (za_main env nowSP nowMs w) = Inr n" and ps: "getOwnerPets env w = Inr ps"
      and p: "p \<in> set ps" and t: "t \<in> set (treatments (db w))" "t_pet_id t = p_id p"
      and la: "last_applied (db w) (t_id t) = a # rest"
    from r have "za_main env nowSP nowMs w = (Inr n, snd (za_main env nowSP nowMs w))"
      by (cases "za_main env nowSP nowMs w") simp
    from za_main_done [OF this ps p t]
    have "set (za_due_rows nowSP (isoDateSP env nowSP nowMs) t a)
        \<subseteq> set (alert_log (db (snd (za_main env nowSP nowMs w))))"
      by (simp add: za_due_def la)
    then show "(za_days nowSP t a \<in> set (za_alertsDays t)
            \<longrightarrow> log_row (t_id t) (''upcoming_'' @ show_int (za_days nowSP t a))
                  (isoDateSP env nowSP nowMs)
                \<in> set (alert_log (db (snd (za_main env nowSP nowMs w)))))
          \<and> (za_days nowSP t a < 0
            \<longrightarrow> log_row (t_id t) ''overdue_daily'' (isoDateSP env nowSP nowMs)
                \<in> set (alert_log (db (snd (za_main env nowSP nowMs w)))))"
      by (auto simp: za_due_rows_def Let_def)
  qed
next
  show "honest env \<and> fst (sa_main env nowSP w) = Inr ()
        \<and> select_pets_by_name env (db w) ''Zeus'' = Inr (z # zs)
        \<and> t \<in> set (treatments (db w)) \<and> t_pet_id t = p_id z
        \<and> last_applied (db w) (t_id t) = a # rest
      \<longrightarrow> (sa_days nowSP t a < 0
            \<longrightarrow> log_row (t_id t) ''overdue_daily'' (toISODate nowSP)
                \<in> set (alert_log (db (snd (sa_main env nowSP w)))))
          \<and> (0 \<le> sa_days nowSP t a \<and> sa_days nowSP t a \<in> set (sa_alerts t)
            \<longrightarrow> log_row (t_id t) (''due_in_'' @ show_int (sa_days nowSP t a)) (toISODate nowSP)
                \<in> set (alert_log (db (snd (sa_main env nowSP w)))))"
  proof (intro impI, elim conjE)
    assume h: "honest env" and r: "fst (sa_main env nowSP w) = Inr ()"
      and z: "select_pets_by_name env (db w) ''Zeus'' = Inr (z # zs)"
      and t: "t \<in> set (treatments (db w))" "t_pet_id t = p_id z"
      and la: "last_applied (db w) (t_id t) = a # rest"
    from r have "sa_main env nowSP w = (Inr (), snd (sa_main env nowSP w))"
      by (cases "sa_main env nowSP w") simp
    from sa_main_done [OF h this z t]
    have "set (sa_due (db w) nowSP (toISODate nowSP) t)
        \<subseteq> set (alert_log (db (snd (sa_main env nowSP w))))" .
    then show "(sa_days nowSP t a < 0
            \<longrightarrow> log_row (t_id t) ''overdue_daily'' (toISODate nowSP)
                \<in> set (alert_log (db (snd (sa_main env nowSP w)))))
          \<and> (0 \<le> sa_days nowSP t a \<and> sa_days nowSP t a \<in> set (sa_alerts t)
            \<longrightarrow> log_row (t_id t) (''due_in_'' @ show_int (sa_days nowSP t a)) (toISODate nowSP)
                \<in> set (alert_log (db (snd (sa_main env nowSP w)))))"
      by (auto simp: sa_due_def sa_days_def la Let_def)
  qed
qed

text \<open>The treatment 5 days overdue with the extra threshold -5, under part_000, and the
  treatment 30 days ahead of its due date, under scripts/send-alerts.js: the completed
  runs have logged \<^verbatim>\<open>upcoming_-5\<close> and \<^verbatim>\<open>overdue_daily\<close>, and \<^verbatim>\<open>due_in_30\<close>.\<close>

theorem alert_types_recorded_witness:
  "fst (za_main channel_up (MakeDay 2024 6 6) 0 world_negative_threshold) = Inr 2
   \<and> getOwnerPets channel_up world_negative_threshold = Inr [pet_zeus]
   \<and> vaccine\<lparr>t_alerts_days := Some [30, - 5]\<rparr> \<in> set (treatments (db world_negative_threshold))
   \<and> last_applied (db world_negative_threshold) ''t1'' = [MakeDay 2024 0 1]
   \<and> za_days (MakeDay 2024 6 6) (vaccine\<lparr>t_alerts_days := Some [30, - 5]\<rparr>) (MakeDay 2024 0 1) = - 5
   \<and> map al_alert_type
        (alert_log (db (snd (za_main channel_up (MakeDay 2024 6 6) 0 world_negative_threshold)))) =
       [''upcoming_-5'', ''overdue_daily'']
   \<and> log_row ''t1'' ''upcoming_-5'' ''2024-07-06''
       \<in> set (alert_log (db (snd (za_main channel_up (MakeDay 2024 6 6) 0 world_negative_threshold))))
   \<and> log_row ''t1'' ''overdue_daily'' ''2024-07-06''
       \<in> set (alert_log (db (snd (za_main channel_up (MakeDay 2024 6 6) 0 world_negative_threshold))))
   \<and> honest channel_up
   \<and> fst (sa_main channel_up (MakeDay 2024 5 1) world0) = Inr ()
   \<and> select_pets_by_name channel_up (db world0) ''Zeus'' = Inr [pet_zeus]
   \<and> sa_days (MakeDay 2024 5 1) vaccine (MakeDay 2024 0 1) = 30
   \<and> log_row ''t1'' ''due_in_30'' ''2024-06-01''
       \<in> set (alert_log (db (snd (sa_main channel_up (MakeDay 2024 5 1) world0))))"
proof -
  define tn where "tn = vaccine\<lparr>t_alerts_days := Some [30, - 5]\<rparr>"
  have z1: "fst (za_main channel_up (MakeDay 2024 6 6) 0 world_negative_threshold) = Inr 2"
    by code_simp
  have z2: "getOwnerPets channel_up world_negative_threshold = Inr [pet_zeus]"
    by code_simp
  have z3: "tn \<in> set (treatments (db world_negative_threshold))"
    by (simp add: tn_def world_negative_threshold_def store_with_def)
  have z4: "last_applied (db world_negative_threshold) ''t1'' = [MakeDay 2024 0 1]"
    by (simp add: last_applied_def world_negative_threshold_def store_with_def applied_jan01_def)
  have z5: "za_days (MakeDay 2024 6 6) tn (MakeDay 2024 0 1) = - 5"
    unfolding tn_def by code_simp
  have z6: "map al_alert_type
        (alert_log (db (snd (za_main channel_up (MakeDay 2024 6 6) 0 world_negative_threshold)))) =
       [''upcoming_-5'', ''overdue_daily'']"
    by code_simp
  have z7: "isoDateSP channel_up (MakeDay 2024 6 6) 0 = ''2024-07-06''" by code_simp
  have z8: "show_int (- 5) = ''-5''" by code_simp
  have id: "t_id tn = ''t1''" "t_pet_id tn = p_id pet_zeus" "za_alertsDays tn = [30, - 5]"
    "pet_zeus \<in> set [pet_zeus]"
    by (simp_all add: tn_def vaccine_def pet_zeus_def za_alertsDays_def)
  have s1: "honest channel_up" by (simp add: honest_def channel_up_def)
  have s2: "fst (sa_main channel_up (MakeDay 2024 5 1) world0) = Inr ()" by code_simp
  have s3: "select_pets_by_name channel_up (db world0) ''Zeus'' = Inr [pet_zeus]" by code_simp
  have s4: "vaccine \<in> set (treatments (db world0))" by (simp add: world0_def store_with_def)
  have s5: "last_applied (db world0) ''t1'' = [MakeDay 2024 0 1]"
    by (simp add: last_applied_def world0_def store_with_def applied_jan01_def)
  have s6: "sa_days (MakeDay 2024 5 1) vaccine (MakeDay 2024 0 1) = 30" by code_simp
  have s7: "toISODate (MakeDay 2024 5 1) = ''2024-06-01''" "show_int 30 = ''30''"
    by code_simp+
  have sid: "t_id vaccine = ''t1''" "t_pet_id vaccine = p_id pet_zeus" "sa_alerts vaccine = [30, 15, 5]"
    by (simp_all add: vaccine_def pet_zeus_def sa_alerts_def)
  note za = alert_types_recorded [where env = channel_up and nowSP = "MakeDay 2024 6 6"
      and nowMs = 0 and w = world_negative_threshold and n = 2 and ps = "[pet_zeus]"
      and p = pet_zeus and t = tn and a = "MakeDay 2024 0 1" and rest = "[]",
      THEN conjunct2, THEN conjunct2, THEN conjunct1]
  note sa = alert_types_recorded [where env = channel_up and nowSP = "MakeDay 2024 5 1"
      and w = world0 and z = pet_zeus and zs = "[]" and t = vaccine
      and a = "MakeDay 2024 0 1" and rest = "[]",
      THEN conjunct2, THEN conjunct2, THEN conjunct2]
  have zc: "log_row ''t1'' ''upcoming_-5'' ''2024-07-06''
       \<in> set (alert_log (db (snd (za_main channel_up (MakeDay 2024 6 6) 0 world_negative_threshold))))
     \<and> log_row ''t1'' ''overdue_daily'' ''2024-07-06''
       \<in> set (alert_log (db (snd (za_main channel_up (MakeDay 2024 6 6) 0 world_negative_threshold))))"
    using za z1 z2 z3 z4 z5 z7 z8 id by simp
  have sc: "log_row ''t1'' ''due_in_30'' ''2024-06-01''
       \<in> set (alert_log (db (snd (sa_main channel_up (MakeDay 2024 5 1) world0))))"
    using sa s1 s2 s3 s4 s5 s6 s7 sid by simp
  show ?thesis
    using z1 z2 z3 z4 z5 z6 zc s1 s2 s3 s6 sc by (simp add: tn_def)
qed

text \<open>
  Claim C4 as stated fails on part_000: its \<^verbatim>\<open>alreadyLogged\<close> reports "already
  claimed" from a lookup that the store answers with a row and no error, so no
  uniqueness-conflict indicator is involved; and when the store does signal the conflict
  (code 23505, to \<^verbatim>\<open>insertLog\<close>), the error is raised instead.
\<close>

theorem za_claimed_without_conflict_signal:
  "za_alreadyLogged channel_up ''t1'' ''overdue_daily'' ''2024-07-06'' world_claimed = Inr True
   \<and> select_alert_log channel_up (db world_claimed) ''t1'' ''overdue_daily'' ''2024-07-06'' =
       Inr [log_row ''t1'' ''overdue_daily'' ''2024-07-06'']
   \<and> fst (insertLog channel_up ''t1'' ''overdue_daily'' ''2024-07-06'' world_claimed) =
       Inl (StoreFailure (StoreError ''23505''))"
  by code_simp

text \<open>
  Claim C4, amended. In scripts/send-alerts.js the claim operation is the insert: it
  reports "not yet claimed" exactly when the store accepts the insert, which the store
  does exactly when it has no fault of its own and holds no row for the triple; it
  reports "already claimed" exactly when the store's error has code 23505; and it raises
  exactly the other store errors. In part_000 \<^verbatim>\<open>alreadyLogged\<close> is a lookup: without a
  store fault it reports "already claimed" exactly when a row for the triple exists and
  "not yet claimed" exactly when none does, it raises every store error, and
  \<^verbatim>\<open>insertLog\<close> raises every error of the insert, the uniqueness conflict included.
\<close>

theorem claim_operation:
  "(fst (sa_alreadyLogged env tid ty dt w) = Inr False
      \<longleftrightarrow> fst (insert_alert_log env (db w) (log_row tid ty dt)) = None)
   \<and> (fst (sa_alreadyLogged env tid ty dt w) = Inr True
      \<longleftrightarrow> (\<exists>e. fst (insert_alert_log env (db w) (log_row tid ty dt)) = Some e
              \<and> err_code e = ''23505''))
   \<and> (fst (sa_alreadyLogged env tid ty dt w) = Inl (StoreFailure e)
      \<longleftrightarrow> fst (insert_alert_log env (db w) (log_row tid ty dt)) = Some e
           \<and> err_code e \<noteq> ''23505'')
   \<and> (fst (insert_alert_log env (db w) (log_row tid ty dt)) = None
      \<longleftrightarrow> store_fault env (InsertAlertLog tid ty dt) = None
           \<and> log_row tid ty dt \<notin> set (alert_log (db w)))
   \<and> (za_alreadyLogged env tid ty dt w = Inr False
      \<longleftrightarrow> store_fault env (SelectAlertLog tid ty dt) = None
           \<and> log_row tid ty dt \<notin> set (alert_log (db w)))
   \<and> (za_alreadyLogged env tid ty dt w = Inr True
      \<longleftrightarrow> store_fault env (SelectAlertLog tid ty dt) = None
           \<and> log_row tid ty dt \<in> set (alert_log (db w)))
   \<and> (za_alreadyLogged env tid ty dt w = Inl (StoreFailure e)
      \<longleftrightarrow> store_fault env (SelectAlertLog tid ty dt) = Some e)
   \<and> (fst (insertLog env tid ty dt w) = Inl (StoreFailure e)
      \<longleftrightarrow> fst (insert_alert_log env (db w) (log_row tid ty dt)) = Some e)"
  by (cases "store_fault env (InsertAlertLog tid ty dt)";
      cases "store_fault env (SelectAlertLog tid ty dt)")
     (auto simp: sa_alreadyLogged_eq insert_alert_log_eq za_alreadyLogged_eq insertLog_eq)




text \<open>Under a process in UTC the two runs of part_000 do not compute the same date key:
  at 00:30 the key is the day before, at 04:00 it is the day itself, while the day
  offset is -5 in both runs. The second run then sends the overdue alert again.\<close>

lemma za_key_lags_under_utc:
  "isoDateSP channel_up_utc (MakeDay 2024 6 6) 1800000 = ''2024-07-05''
   \<and> isoDateSP channel_up_utc (MakeDay 2024 6 6) 14400000 = ''2024-07-06''
   \<and> fst (za_main channel_up_utc (MakeDay 2024 6 6) 1800000 world0) = Inr 1
   \<and> map al_alert_date
        (alert_log (db (snd (za_main channel_up_utc (MakeDay 2024 6 6) 14400000
           (snd (za_main channel_up_utc (MakeDay 2024 6 6) 1800000 world0)))))) =
       [''2024-07-05'', ''2024-07-06'']
   \<and> length (outbox (snd (za_main channel_up_utc (MakeDay 2024 6 6) 14400000
           (snd (za_main channel_up_utc (MakeDay 2024 6 6) 1800000 world0))))) = 2"
  by code_simp

text \<open>
  Claim C9. When the store answers that a treatment has no application, both runners
  pass over the treatment: its evaluation returns at once with the state unchanged (no
  message, no log row), whatever its interval and thresholds, and the loop goes on as if
  the treatment were not in the list.
\<close>

theorem no_history_skipped:
  assumes "store_fault env (SelectApplications (t_id t)) = None"
    and "filter (\<lambda>a. ap_treatment_id a = t_id t) (applications (db w)) = []"
  shows "sa_treatment env p nowSP todayISO t w = (Inr (), w)
     \<and> za_treatment env p nowSP todayKey t w = (Inr 0, w)
     \<and> sa_loop env p nowSP todayISO (t # ts) w = sa_loop env p nowSP todayISO ts w
     \<and> za_treatments_loop env p nowSP todayKey (t # ts) w =
         za_treatments_loop env p nowSP todayKey ts w"
proof -
  have la: "last_applied (db w) (t_id t) = []"
    using assms(2) by (simp add: last_applied_def)
  have s: "sa_treatment env p nowSP todayISO t w = (Inr (), w)"
    using assms(1) la by (simp add: sa_treatment_def select_last_application_eq)
  have z: "za_treatment env p nowSP todayKey t w = (Inr 0, w)"
    using assms(1) la by (simp add: za_treatment_eq)
  show ?thesis
    using s z by (simp split: prod.splits sum.splits)
qed

text \<open>The store with the treatment and no application.\<close>

theorem no_history_skipped_witness:
  "store_fault channel_up (SelectApplications (t_id vaccine)) = None
   \<and> filter (\<lambda>a. ap_treatment_id a = t_id vaccine) (applications (db world_no_history)) = []
   \<and> sa_treatment channel_up pet_zeus (MakeDay 2024 6 6) ''2024-07-06'' vaccine world_no_history =
       (Inr (), world_no_history)
   \<and> za_treatment channel_up pet_zeus (MakeDay 2024 6 6) ''2024-07-06'' vaccine world_no_history =
       (Inr 0, world_no_history)"
proof -
  have a: "store_fault channel_up (SelectApplications (t_id vaccine)) = None"
    by (simp add: channel_up_def)
  have b: "filter (\<lambda>a. ap_treatment_id a = t_id vaccine) (applications (db world_no_history)) = []"
    by (simp add: world_no_history_def store_with_def)
  show ?thesis
    using a b no_history_skipped [OF a b, of pet_zeus "MakeDay 2024 6 6" "''2024-07-06''" "''2024-07-06''" "[]"]
    by blast
qed


end
